theory Spec2Isabelle
  imports Main "HOL-Library.Word"
begin

section \<open>Conventions\<close>

text \<open>
  A JavaScript string is a sequence of UTF-16 code units. It is modelled as a
  \<^typ>\<open>string\<close> whose characters stand for the code units below 256, so
  \<^term>\<open>length s\<close> is what \<^verbatim>\<open>s.length\<close> returns. A \<^verbatim>\<open>Buffer\<close> or
  \<^verbatim>\<open>Uint8Array\<close> is a list of 8-bit words. A thrown \<^verbatim>\<open>Error\<close> is the value
  \<open>Inl (Error message)\<close> of a sum type; \<^verbatim>\<open>try { ... } catch (error) { throw new
  Error(`prefix: ${error.message}`) }\<close> is \<open>rethrow\<close>. Clock readings
  (\<^verbatim>\<open>new Date()\<close>, in milliseconds) and fresh identifiers
  (\<^verbatim>\<open>crypto.randomUUID()\<close>) are arguments of the operation that takes them.
\<close>

unbundle bit_operations_syntax

type_synonym byte = "8 word"
type_synonym bytes = "byte list"

datatype error = Error (message: string)

definition rethrow :: "string \<Rightarrow> error + 'a \<Rightarrow> error + 'a" where
  "rethrow prefix r = (case r of Inl e \<Rightarrow> Inl (Error (prefix @ message e)) | Inr v \<Rightarrow> Inr v)"

section \<open>Buffer encodings\<close>

text \<open>
  \<^verbatim>\<open>Buffer.from(s, 'utf8')\<close>: a code unit below 128 is one byte, one from 128 to 255
  is two bytes.
\<close>

definition utf8_char :: "char \<Rightarrow> bytes" where
  "utf8_char c =
     (let n = (of_char c :: nat) in
      if n < 128 then [of_nat n]
      else [of_nat (192 + n div 64), of_nat (128 + n mod 64)])"

definition utf8 :: "string \<Rightarrow> bytes" where
  "utf8 s = concat (map utf8_char s)"

text \<open>
  \<^verbatim>\<open>Buffer.from(s, 'base64')\<close> never throws on a string: decoding stops at the first
  \<^verbatim>\<open>=\<close>, characters outside the standard and the URL-safe alphabet are skipped,
  four characters give three bytes, and a last group of two or three characters gives one
  or two bytes (a single left-over character gives none).
\<close>

definition unbase64 :: "char \<Rightarrow> nat option" where
  "unbase64 c =
     (let n = (of_char c :: nat) in
      if 65 \<le> n \<and> n \<le> 90 then Some (n - 65)
      else if 97 \<le> n \<and> n \<le> 122 then Some (n - 71)
      else if 48 \<le> n \<and> n \<le> 57 then Some (n + 4)
      else if c = CHR ''+'' \<or> c = CHR ''-'' then Some 62
      else if c = CHR ''/'' \<or> c = CHR ''_'' then Some 63
      else None)"

fun base64_groups :: "nat list \<Rightarrow> bytes" where
  "base64_groups (a # b # c # d # rest) =
     of_nat (a * 4 + b div 16) # of_nat ((b mod 16) * 16 + c div 4) #
     of_nat ((c mod 4) * 64 + d) # base64_groups rest"
| "base64_groups [a, b, c] = [of_nat (a * 4 + b div 16), of_nat ((b mod 16) * 16 + c div 4)]"
| "base64_groups [a, b] = [of_nat (a * 4 + b div 16)]"
| "base64_groups _ = []"

definition base64_decode :: "string \<Rightarrow> bytes" where
  "base64_decode s = base64_groups (List.map_filter unbase64 (takeWhile (\<lambda>c. c \<noteq> CHR ''='') s))"

text \<open>\<^verbatim>\<open>buf.toString('base64')\<close>: the standard alphabet, padded with \<^verbatim>\<open>=\<close>.\<close>

definition base64_char :: "nat \<Rightarrow> char" where
  "base64_char n =
     (if n < 26 then char_of (n + 65)
      else if n < 52 then char_of (n + 71)
      else if n < 62 then char_of (n - 4)
      else if n = 62 then CHR ''+'' else CHR ''/'')"

fun base64_encode :: "bytes \<Rightarrow> string" where
  "base64_encode (x # y # z # rest) =
     (let a = unat x; b = unat y; c = unat z in
      base64_char (a div 4) # base64_char ((a mod 4) * 16 + b div 16) #
      base64_char ((b mod 16) * 4 + c div 64) # base64_char (c mod 64) # base64_encode rest)"
| "base64_encode [x, y] =
     (let a = unat x; b = unat y in
      [base64_char (a div 4), base64_char ((a mod 4) * 16 + b div 16),
       base64_char ((b mod 16) * 4), CHR ''=''])"
| "base64_encode [x] =
     (let a = unat x in [base64_char (a div 4), base64_char ((a mod 4) * 16), CHR ''='', CHR ''=''])"
| "base64_encode [] = []"

section \<open>The cryptographic primitives\<close>

text \<open>
  SHA-256 (Node's \<^verbatim>\<open>crypto.createHash('sha256')\<close>) and the Ed25519 core of tweetnacl
  (\<^verbatim>\<open>crypto_sign\<close>, \<^verbatim>\<open>crypto_sign_open\<close>) are libraries outside the repository:
  they are parameters of the model. What tweetnacl's wrappers do before they reach the
  core is written out: \<^verbatim>\<open>nacl.sign.detached\<close> and
  \<^verbatim>\<open>nacl.sign.keyPair.fromSecretKey\<close> throw \<^verbatim>\<open>bad secret key size\<close> unless the
  secret key has 64 bytes, \<^verbatim>\<open>nacl.sign.detached.verify\<close> throws
  \<^verbatim>\<open>bad signature size\<close> unless the signature has 64 bytes and
  \<^verbatim>\<open>bad public key size\<close> unless the public key has 32 bytes, and the public key of a
  secret key is its last 32 bytes.
\<close>

record crypto =
  sha256_hex :: "string \<Rightarrow> string"
  crypto_sign :: "bytes \<Rightarrow> bytes \<Rightarrow> bytes"
  crypto_sign_open :: "bytes \<Rightarrow> bytes \<Rightarrow> bytes \<Rightarrow> bool"

definition nacl_sign_detached :: "crypto \<Rightarrow> bytes \<Rightarrow> bytes \<Rightarrow> error + bytes" where
  "nacl_sign_detached cr msg secretKey =
     (if length secretKey \<noteq> 64 then Inl (Error ''bad secret key size'')
      else Inr (crypto_sign cr msg secretKey))"

definition nacl_sign_detached_verify :: "crypto \<Rightarrow> bytes \<Rightarrow> bytes \<Rightarrow> bytes \<Rightarrow> error + bool" where
  "nacl_sign_detached_verify cr msg sig publicKey =
     (if length sig \<noteq> 64 then Inl (Error ''bad signature size'')
      else if length publicKey \<noteq> 32 then Inl (Error ''bad public key size'')
      else Inr (crypto_sign_open cr msg sig publicKey))"

definition nacl_sign_keyPair_fromSecretKey :: "bytes \<Rightarrow> error + bytes" where
  "nacl_sign_keyPair_fromSecretKey secretKey =
     (if length secretKey \<noteq> 64 then Inl (Error ''bad secret key size'')
      else Inr (drop 32 secretKey))"

section \<open>EdDSAService\<close>

record signature_data =
  sd_signature :: string
  sd_message :: string
  sd_algorithm :: string
  sd_timestamp :: int
  sd_messageHash :: string

text \<open>
  \<^verbatim>\<open>hashDocument(content)\<close>: the hex digest of a string. The argument is the result
  of \<^verbatim>\<open>JSON.stringify\<close> at three call sites, which is \<^verbatim>\<open>undefined\<close> (here
  \<open>None\<close>) for a value that has no JSON text; \<^verbatim>\<open>hash.update(undefined)\<close> throws.
\<close>

definition hashDocument :: "crypto \<Rightarrow> string option \<Rightarrow> error + string" where
  "hashDocument cr content =
     rethrow ''Failed to hash document: ''
       (case content of
          None \<Rightarrow>
            Inl (Error (''The '' @ [CHR 0x22] @ ''data'' @ [CHR 0x22] @
              '' argument must be of type string or an instance of Buffer, TypedArray, or DataView. Received undefined''))
        | Some s \<Rightarrow> Inr (sha256_hex cr s))"

definition sign :: "crypto \<Rightarrow> int \<Rightarrow> string \<Rightarrow> string \<Rightarrow> error + signature_data" where
  "sign cr now msg privateKey =
     rethrow ''Failed to create signature: ''
       (case nacl_sign_detached cr (utf8 msg) (base64_decode privateKey) of
          Inl e \<Rightarrow> Inl e
        | Inr signature \<Rightarrow>
            (case hashDocument cr (Some msg) of
               Inl e \<Rightarrow> Inl e
             | Inr h \<Rightarrow>
                 Inr \<lparr>sd_signature = base64_encode signature, sd_message = msg,
                      sd_algorithm = ''Ed25519'', sd_timestamp = now,
                      sd_messageHash = h\<rparr>))"

definition verify :: "crypto \<Rightarrow> string \<Rightarrow> string \<Rightarrow> string \<Rightarrow> error + bool" where
  "verify cr signature msg publicKey =
     rethrow ''Failed to verify signature: ''
       (nacl_sign_detached_verify cr (utf8 msg) (base64_decode signature) (base64_decode publicKey))"

definition getPublicKeyFromPrivate :: "string \<Rightarrow> error + string" where
  "getPublicKeyFromPrivate privateKey =
     rethrow ''Failed to extract public key: ''
       (case nacl_sign_keyPair_fromSecretKey (base64_decode privateKey) of
          Inl e \<Rightarrow> Inl e
        | Inr publicKey \<Rightarrow> Inr (base64_encode publicKey))"

text \<open>
  \<^verbatim>\<open>validateKeyPair\<close>: the body runs inside \<^verbatim>\<open>try\<close>, and the handler is
  \<^verbatim>\<open>catch (error) { return false; }\<close>.
\<close>

definition validateKeyPair :: "crypto \<Rightarrow> int \<Rightarrow> string \<Rightarrow> string \<Rightarrow> error + bool" where
  "validateKeyPair cr now publicKey privateKey =
     (let testMessage = ''test-message-for-validation'' in
      case (case sign cr now testMessage privateKey of
              Inl e \<Rightarrow> Inl e
            | Inr signature \<Rightarrow> verify cr (sd_signature signature) testMessage publicKey) of
        Inl e \<Rightarrow> Inr False
      | Inr b \<Rightarrow> Inr b)"

section \<open>JSON values and \<^verbatim>\<open>JSON.stringify\<close>\<close>

text \<open>
  The values that documents, signer information and QR payloads are made of. A number is
  an integer; an object is the list of its own properties in enumeration order, which
  for the keys used here (none of them an array index) is the order of insertion.
  \<^verbatim>\<open>obj.key\<close> is \<open>get\<close>: \<^verbatim>\<open>undefined\<close> when the property is missing.
\<close>

datatype json =
    JUndefined
  | JNull
  | JBool bool
  | JNum int
  | JStr string
  | JArr "json list"
  | JObj "(string \<times> json) list"

type_synonym object = "(string \<times> json) list"

definition get :: "object \<Rightarrow> string \<Rightarrow> json" where
  "get obj key = (case map_of obj key of None \<Rightarrow> JUndefined | Some v \<Rightarrow> v)"

fun truthy :: "json \<Rightarrow> bool" where
  "truthy JUndefined = False"
| "truthy JNull = False"
| "truthy (JBool b) = b"
| "truthy (JNum n) = (n \<noteq> 0)"
| "truthy (JStr s) = (s \<noteq> [])"
| "truthy (JArr _) = True"
| "truthy (JObj _) = True"

text \<open>\<^verbatim>\<open>a || b\<close>\<close>

definition or_else :: "json \<Rightarrow> json \<Rightarrow> json" where
  "or_else a b = (if truthy a then a else b)"

definition hex_digit :: "nat \<Rightarrow> char" where
  "hex_digit n = (if n < 10 then char_of (48 + n) else char_of (87 + n))"

text \<open>
  \<^verbatim>\<open>QuoteJSONString\<close>: the two-character escapes, \<^verbatim>\<open>\u00xx\<close> for the other
  control characters, every other code unit as it is.
\<close>

definition quote_char :: "char \<Rightarrow> string" where
  "quote_char c =
     (let n = (of_char c :: nat) in
      if n = 8 then [CHR 0x5C, CHR ''b'']
      else if n = 9 then [CHR 0x5C, CHR ''t'']
      else if n = 10 then [CHR 0x5C, CHR ''n'']
      else if n = 12 then [CHR 0x5C, CHR ''f'']
      else if n = 13 then [CHR 0x5C, CHR ''r'']
      else if n = 34 then [CHR 0x5C, CHR 0x22]
      else if n = 92 then [CHR 0x5C, CHR 0x5C]
      else if n < 32 then [CHR 0x5C, CHR ''u'', CHR ''0'', CHR ''0'', hex_digit (n div 16), hex_digit (n mod 16)]
      else [c])"

definition quote :: "string \<Rightarrow> string" where
  "quote s = CHR 0x22 # concat (map quote_char s) @ [CHR 0x22]"

fun show_nat :: "nat \<Rightarrow> string" where
  "show_nat n = (if n < 10 then [char_of (48 + n)] else show_nat (n div 10) @ [char_of (48 + n mod 10)])"

declare show_nat.simps [simp del]

definition show_int :: "int \<Rightarrow> string" where
  "show_int i = (if i < 0 then CHR ''-'' # show_nat (nat (- i)) else show_nat (nat i))"

fun join :: "string \<Rightarrow> string list \<Rightarrow> string" where
  "join sep [] = []"
| "join sep [x] = x"
| "join sep (x # y # ys) = x @ sep @ join sep (y # ys)"

text \<open>
  \<^verbatim>\<open>JSON.stringify(value)\<close> with no indentation. \<open>None\<close> is \<^verbatim>\<open>undefined\<close>: an
  \<^verbatim>\<open>undefined\<close> array element is written \<^verbatim>\<open>null\<close>, a property whose value is
  \<^verbatim>\<open>undefined\<close> is left out.
\<close>

fun JSON_stringify :: "json \<Rightarrow> string option" where
  "JSON_stringify JUndefined = None"
| "JSON_stringify JNull = Some ''null''"
| "JSON_stringify (JBool b) = Some (if b then ''true'' else ''false'')"
| "JSON_stringify (JNum n) = Some (show_int n)"
| "JSON_stringify (JStr s) = Some (quote s)"
| "JSON_stringify (JArr xs) =
     Some (''['' @ join '','' (map (\<lambda>x. case JSON_stringify x of None \<Rightarrow> ''null'' | Some t \<Rightarrow> t) xs) @ '']'')"
| "JSON_stringify (JObj kvs) =
     Some (''{'' @ join '',''
        (concat (map (\<lambda>(k, v). case JSON_stringify v of None \<Rightarrow> [] | Some t \<Rightarrow> [quote k @ '':'' @ t]) kvs))
        @ ''}'')"

section \<open>\<^verbatim>\<open>JSON.parse\<close>\<close>

text \<open>
  A recursive-descent reader of the JSON grammar: white space between tokens, the
  escapes of strings, integers without leading zeros, the three literals, arrays and
  objects. The recursion runs on a counter that \<^verbatim>\<open>JSON_parse\<close> starts at twice the
  length of the text plus two, more than a text of that length can use. Two kinds of
  JSON text have no value in this model and are refused: a number with a fraction or an
  exponent, and a \<^verbatim>\<open>\u\<close> escape of a code unit above 255. The text of the
  \<^verbatim>\<open>SyntaxError\<close> is not modelled.
\<close>

definition is_ws :: "char \<Rightarrow> bool" where
  "is_ws c = (c = CHR 0x20 \<or> c = CHR 0x09 \<or> c = CHR 0x0A \<or> c = CHR 0x0D)"

definition skip_ws :: "string \<Rightarrow> string" where
  "skip_ws s = dropWhile is_ws s"

definition hex_val :: "char \<Rightarrow> nat option" where
  "hex_val c =
     (let n = (of_char c :: nat) in
      if 48 \<le> n \<and> n \<le> 57 then Some (n - 48)
      else if 97 \<le> n \<and> n \<le> 102 then Some (n - 87)
      else if 65 \<le> n \<and> n \<le> 70 then Some (n - 55)
      else None)"

text \<open>The character that follows a backslash, \<^verbatim>\<open>u\<close> apart.\<close>

definition unescape :: "char \<Rightarrow> char option" where
  "unescape e =
     (if e = CHR 0x22 then Some (CHR 0x22)
      else if e = CHR 0x5C then Some (CHR 0x5C)
      else if e = CHR ''/'' then Some (CHR ''/'')
      else if e = CHR ''b'' then Some (CHR 0x08)
      else if e = CHR ''f'' then Some (CHR 0x0C)
      else if e = CHR ''n'' then Some (CHR 0x0A)
      else if e = CHR ''r'' then Some (CHR 0x0D)
      else if e = CHR ''t'' then Some (CHR 0x09)
      else None)"

definition cons_result :: "char \<Rightarrow> (string \<times> string) option \<Rightarrow> (string \<times> string) option" where
  "cons_result c r = (case r of None \<Rightarrow> None | Some (t, rest) \<Rightarrow> Some (c # t, rest))"

text \<open>The characters of a string after its opening quote, and what follows the closing quote.\<close>

fun parse_string :: "string \<Rightarrow> (string \<times> string) option" where
  "parse_string [] = None"
| "parse_string (c # cs) =
     (if c = CHR 0x22 then Some ([], cs)
      else if c = CHR 0x5C then
        (case cs of
           [] \<Rightarrow> None
         | e # cs1 \<Rightarrow>
             if e = CHR ''u'' then
               (case cs1 of
                  h1 # h2 # h3 # h4 # cs2 \<Rightarrow>
                    (case (hex_val h1, hex_val h2, hex_val h3, hex_val h4) of
                       (Some a, Some b, Some c', Some d) \<Rightarrow>
                         if ((a * 16 + b) * 16 + c') * 16 + d < 256
                         then cons_result (char_of (((a * 16 + b) * 16 + c') * 16 + d)) (parse_string cs2)
                         else None
                     | _ \<Rightarrow> None)
                | _ \<Rightarrow> None)
             else
               (case unescape e of
                  None \<Rightarrow> None
                | Some x \<Rightarrow> cons_result x (parse_string cs1)))
      else if (of_char c :: nat) < 32 then None
      else cons_result c (parse_string cs))"

definition is_digit :: "char \<Rightarrow> bool" where
  "is_digit c = (48 \<le> (of_char c :: nat) \<and> (of_char c :: nat) \<le> 57)"

definition digits_value :: "string \<Rightarrow> nat" where
  "digits_value ds = foldl (\<lambda>a c. 10 * a + ((of_char c :: nat) - 48)) 0 ds"

definition parse_digits :: "string \<Rightarrow> (nat \<times> string) option" where
  "parse_digits s =
     (let ds = takeWhile is_digit s; r = dropWhile is_digit s in
      if ds = [] then None
      else if hd ds = CHR ''0'' \<and> 1 < length ds then None
      else if r \<noteq> [] \<and> (hd r = CHR ''.'' \<or> hd r = CHR ''e'' \<or> hd r = CHR ''E'') then None
      else Some (digits_value ds, r))"

definition parse_number :: "string \<Rightarrow> (int \<times> string) option" where
  "parse_number s =
     (case s of
        [] \<Rightarrow> None
      | c # r \<Rightarrow>
          if c = CHR ''-'' then map_option (\<lambda>(n, rest). (- int n, rest)) (parse_digits r)
          else map_option (\<lambda>(n, rest). (int n, rest)) (parse_digits s))"

text \<open>
  \<^verbatim>\<open>JSON.parse\<close> defines the properties of an object one after the other: a key that
  comes again replaces the value and keeps the place of the first.
\<close>

fun set_prop :: "object \<Rightarrow> string \<Rightarrow> json \<Rightarrow> object" where
  "set_prop [] k v = [(k, v)]"
| "set_prop ((k', v') # kvs) k v = (if k' = k then (k, v) # kvs else (k', v') # set_prop kvs k v)"

definition object_of :: "(string \<times> json) list \<Rightarrow> object" where
  "object_of kvs = foldl (\<lambda>obj (k, v). set_prop obj k v) [] kvs"

fun parse_value :: "nat \<Rightarrow> string \<Rightarrow> (json \<times> string) option"
  and parse_elements :: "nat \<Rightarrow> string \<Rightarrow> (json list \<times> string) option"
  and parse_members :: "nat \<Rightarrow> string \<Rightarrow> ((string \<times> json) list \<times> string) option"
where
  "parse_value 0 s = None"
| "parse_value (Suc n) s =
     (case skip_ws s of
        [] \<Rightarrow> None
      | c # r \<Rightarrow>
          if c = CHR ''{'' then
            (case skip_ws r of
               [] \<Rightarrow> None
             | c1 # r1 \<Rightarrow>
                 if c1 = CHR ''}'' then Some (JObj [], r1)
                 else map_option (\<lambda>(kvs, r2). (JObj (object_of kvs), r2)) (parse_members n (c1 # r1)))
          else if c = CHR ''['' then
            (case skip_ws r of
               [] \<Rightarrow> None
             | c1 # r1 \<Rightarrow>
                 if c1 = CHR '']'' then Some (JArr [], r1)
                 else map_option (\<lambda>(vs, r2). (JArr vs, r2)) (parse_elements n (c1 # r1)))
          else if c = CHR 0x22 then map_option (\<lambda>(t, r1). (JStr t, r1)) (parse_string r)
          else if take 4 (c # r) = ''true'' then Some (JBool True, drop 3 r)
          else if take 5 (c # r) = ''false'' then Some (JBool False, drop 4 r)
          else if take 4 (c # r) = ''null'' then Some (JNull, drop 3 r)
          else map_option (\<lambda>(i, r1). (JNum i, r1)) (parse_number (c # r)))"
| "parse_elements 0 s = None"
| "parse_elements (Suc n) s =
     (case parse_value n s of
        None \<Rightarrow> None
      | Some (v, r) \<Rightarrow>
          (case skip_ws r of
             [] \<Rightarrow> None
           | c # r1 \<Rightarrow>
               if c = CHR '','' then map_option (\<lambda>(vs, r2). (v # vs, r2)) (parse_elements n r1)
               else if c = CHR '']'' then Some ([v], r1)
               else None))"
| "parse_members 0 s = None"
| "parse_members (Suc n) s =
     (case skip_ws s of
        [] \<Rightarrow> None
      | c # r \<Rightarrow>
          if c \<noteq> CHR 0x22 then None
          else
            (case parse_string r of
               None \<Rightarrow> None
             | Some (k, r1) \<Rightarrow>
                 (case skip_ws r1 of
                    [] \<Rightarrow> None
                  | c1 # r2 \<Rightarrow>
                      if c1 \<noteq> CHR '':'' then None
                      else
                        (case parse_value n r2 of
                           None \<Rightarrow> None
                         | Some (v, r3) \<Rightarrow>
                             (case skip_ws r3 of
                                [] \<Rightarrow> None
                              | c2 # r4 \<Rightarrow>
                                  if c2 = CHR '','' then
                                    map_option (\<lambda>(kvs, r5). ((k, v) # kvs, r5)) (parse_members n r4)
                                  else if c2 = CHR ''}'' then Some ([(k, v)], r4)
                                  else None)))))"

definition JSON_parse :: "string \<Rightarrow> error + json" where
  "JSON_parse s =
     (case parse_value (2 * length s + 2) s of
        None \<Rightarrow> Inl (Error ''Unexpected token in JSON'')
      | Some (v, r) \<Rightarrow> if skip_ws r = [] then Inr v else Inl (Error ''Unexpected token in JSON''))"

text \<open>
  What \<^verbatim>\<open>JSON.parse(JSON.stringify(v))\<close> is expected to be: \<open>v\<close> without the
  properties whose value is \<^verbatim>\<open>undefined\<close> and with \<^verbatim>\<open>null\<close> for the
  \<^verbatim>\<open>undefined\<close> elements of arrays. A value is well formed when no object in it
  has a key twice, as for every JavaScript object.
\<close>

fun norm :: "json \<Rightarrow> json" where
  "norm (JArr xs) = JArr (map (\<lambda>x. if x = JUndefined then JNull else norm x) xs)"
| "norm (JObj kvs) =
     JObj (concat (map (\<lambda>(k, v). if v = JUndefined then [] else [(k, norm v)]) kvs))"
| "norm v = v"

fun distinct_keys :: "json \<Rightarrow> bool" where
  "distinct_keys (JArr xs) = list_all distinct_keys xs"
| "distinct_keys (JObj kvs) = (distinct (map fst kvs) \<and> list_all (\<lambda>(k, v). distinct_keys v) kvs)"
| "distinct_keys v = True"

fun defined :: "json \<Rightarrow> bool" where
  "defined JUndefined = False"
| "defined (JArr xs) = list_all defined xs"
| "defined (JObj kvs) = list_all (\<lambda>(k, v). defined v) kvs"
| "defined v = True"

fun need :: "json \<Rightarrow> nat" where
  "need (JArr xs) = 1 + sum_list (map (\<lambda>x. 1 + need x) xs)"
| "need (JObj kvs) = 1 + sum_list (map (\<lambda>(k, v). 1 + need v) kvs)"
| "need v = 1"

text \<open>What may follow a value inside a JSON text.\<close>

definition delimited :: "string \<Rightarrow> bool" where
  "delimited rest = (case rest of [] \<Rightarrow> True | c # _ \<Rightarrow> c = CHR '','' \<or> c = CHR '']'' \<or> c = CHR ''}'')"

text \<open>What may follow a number.\<close>

definition number_end :: "string \<Rightarrow> bool" where
  "number_end rest = (rest = [] \<or> \<not> is_digit (hd rest) \<and> hd rest \<noteq> CHR ''.'' \<and> hd rest \<noteq> CHR ''e'' \<and> hd rest \<noteq> CHR ''E'')"

text \<open>
  The text of an array element and of an object member in \<^verbatim>\<open>JSON.stringify\<close>, and
  the characters a value can start with.
\<close>

definition elem_text :: "json \<Rightarrow> string" where
  "elem_text x = (case JSON_stringify x of None \<Rightarrow> ''null'' | Some t \<Rightarrow> t)"

definition member_text :: "string \<times> json \<Rightarrow> string" where
  "member_text p = quote (fst p) @ '':'' @ elem_text (snd p)"

definition value_start :: "char \<Rightarrow> bool" where
  "value_start c = (\<not> is_ws c \<and> c \<noteq> CHR '']'' \<and> c \<noteq> CHR ''}'')"

section \<open>MultiSignatureService\<close>

text \<open>\<^verbatim>\<open>config.MULTISIG_CONFIG\<close>\<close>

definition MIN_SIGNERS :: int where "MIN_SIGNERS = 2"
definition MAX_SIGNERS :: nat where "MAX_SIGNERS = 5"
definition DEFAULT_THRESHOLD :: int where "DEFAULT_THRESHOLD = 2"

record signer_input =
  si_role :: string
  si_name :: string
  si_email :: string
  si_required :: "bool option"

record required_signer =
  rs_role :: string
  rs_name :: string
  rs_email :: string
  rs_required :: bool
  rs_status :: string
  rs_signedAt :: "int option"

text \<open>
  The signer of a stored signature is \<^verbatim>\<open>{...signerInfo, role, publicKey}\<close>: the
  caller's object, with its \<^verbatim>\<open>role\<close> and \<^verbatim>\<open>publicKey\<close> replaced.
\<close>

record signer =
  sg_info :: object
  sg_role :: string
  sg_publicKey :: string

record stored_signature =
  signatureId :: string
  signature :: string
  sig_signer :: signer
  signedAt :: int
  sig_documentHash :: string
  sig_valid :: bool

record session_metadata =
  totalSigners :: nat
  signedCount :: nat
  pendingCount :: nat

record session =
  sessionId :: string
  documentId :: json
  documentHash :: string
  requiredSigners :: "required_signer list"
  threshold :: int
  signatures :: "stored_signature list"
  status :: string
  createdAt :: int
  expiresAt :: int
  completedAt :: "int option"
  lastUpdated :: "int option"
  metadata :: session_metadata

text \<open>
  The text that is hashed for a document:
  \<^verbatim>\<open>JSON.stringify(document.content || document)\<close>.
\<close>

definition signable :: "object \<Rightarrow> json" where
  "signable document = or_else (get document ''content'') (JObj document)"

definition document_hash :: "crypto \<Rightarrow> object \<Rightarrow> error + string" where
  "document_hash cr document = hashDocument cr (JSON_stringify (signable document))"

text \<open>
  \<^verbatim>\<open>initializeMultiSigSession(document, requiredSigners, threshold = null)\<close>. The two
  identifiers are the values \<^verbatim>\<open>crypto.randomUUID()\<close> returns; \<open>None\<close> is a
  threshold that is \<^verbatim>\<open>null\<close> or left out, and \<^verbatim>\<open>threshold || ...\<close> takes the
  default for 0 as well.
\<close>

definition initializeMultiSigSession ::
  "crypto \<Rightarrow> int \<Rightarrow> string \<Rightarrow> string \<Rightarrow> object \<Rightarrow> signer_input list \<Rightarrow> int option \<Rightarrow> error + session" where
  "initializeMultiSigSession cr now uuid1 uuid2 document signers thr =
     rethrow ''Failed to initialize multi-signature session: ''
       (case document_hash cr document of
          Inl e \<Rightarrow> Inl e
        | Inr h \<Rightarrow>
            Inr \<lparr>sessionId = uuid1,
                 documentId = or_else (get document ''id'') (JStr uuid2),
                 documentHash = h,
                 requiredSigners =
                   map (\<lambda>s. \<lparr>rs_role = si_role s, rs_name = si_name s, rs_email = si_email s,
                              rs_required = (si_required s \<noteq> Some False),
                              rs_status = ''pending'', rs_signedAt = None\<rparr>) signers,
                 threshold =
                   (case thr of
                      None \<Rightarrow> min DEFAULT_THRESHOLD (int (length signers))
                    | Some t \<Rightarrow> if t = 0 then min DEFAULT_THRESHOLD (int (length signers)) else t),
                 signatures = [],
                 status = ''pending'',
                 createdAt = now,
                 expiresAt = now + 7 * 24 * 60 * 60 * 1000,
                 completedAt = None,
                 lastUpdated = None,
                 metadata = \<lparr>totalSigners = length signers, signedCount = 0,
                              pendingCount = length signers\<rparr>\<rparr>)"

text \<open>
  \<^verbatim>\<open>requiredSigner.status = 'signed'; requiredSigner.signedAt = ...\<close> writes to the
  object \<^verbatim>\<open>find\<close> returned: the first required signer with the role.
\<close>

fun mark_signed :: "string \<Rightarrow> int \<Rightarrow> required_signer list \<Rightarrow> required_signer list" where
  "mark_signed r t [] = []"
| "mark_signed r t (s # ss) =
     (if rs_role s = r then s\<lparr>rs_status := ''signed'', rs_signedAt := Some t\<rparr> # ss
      else s # mark_signed r t ss)"

text \<open>
  The session after a signature is accepted: lines 100 to 130 of \<^verbatim>\<open>addSignature\<close>,
  which throw nothing.
\<close>

definition accept_signature :: "int \<Rightarrow> string \<Rightarrow> session \<Rightarrow> string \<Rightarrow> object \<Rightarrow> string \<Rightarrow> string \<Rightarrow> session" where
  "accept_signature now uuid s signerRole signerInfo sig_b64 publicKey =
     (let newSignature =
            \<lparr>signatureId = uuid, signature = sig_b64,
             sig_signer = \<lparr>sg_info = signerInfo, sg_role = signerRole, sg_publicKey = publicKey\<rparr>,
             signedAt = now, sig_documentHash = documentHash s, sig_valid = True\<rparr>;
          sigs = signatures s @ [newSignature];
          signers = mark_signed signerRole now (requiredSigners s);
          s1 = s\<lparr>signatures := sigs, requiredSigners := signers,
                 metadata := (metadata s)\<lparr>signedCount := length sigs,
                   pendingCount := length (filter (\<lambda>r. rs_status r = ''pending'') signers)\<rparr>\<rparr>;
          s2 = (if threshold s1 \<le> int (length (signatures s1))
                then s1\<lparr>status := ''completed'', completedAt := Some now\<rparr> else s1)
      in s2\<lparr>lastUpdated := Some now\<rparr>)"

definition addSignature ::
  "crypto \<Rightarrow> int \<Rightarrow> string \<Rightarrow> session \<Rightarrow> string \<Rightarrow> string \<Rightarrow> object \<Rightarrow> error + session" where
  "addSignature cr now uuid s signerRole privateKey signerInfo =
     rethrow ''Failed to add signature: ''
       (if status s = ''completed'' then Inl (Error ''Multi-signature session is already completed'')
        else if expiresAt s < now then Inl (Error ''Multi-signature session has expired'')
        else
          (case find (\<lambda>r. rs_role r = signerRole) (requiredSigners s) of
             None \<Rightarrow>
               Inl (Error (''Signer role '' @ [CHR 0x27] @ signerRole @ [CHR 0x27] @
                           '' is not required for this document''))
           | Some requiredSigner \<Rightarrow>
               (case find (\<lambda>g. sg_role (sig_signer g) = signerRole) (signatures s) of
                  Some existingSignature \<Rightarrow>
                    Inl (Error (''Signer with role '' @ [CHR 0x27] @ signerRole @ [CHR 0x27] @
                                '' has already signed this document''))
                | None \<Rightarrow>
                    (case sign cr now (documentHash s) privateKey of
                       Inl e \<Rightarrow> Inl e
                     | Inr signatureData \<Rightarrow>
                         (case getPublicKeyFromPrivate privateKey of
                            Inl e \<Rightarrow> Inl e
                          | Inr publicKey \<Rightarrow>
                              (case verify cr (sd_signature signatureData) (documentHash s) publicKey of
                                 Inl e \<Rightarrow> Inl e
                               | Inr isValid \<Rightarrow>
                                   if \<not> isValid then Inl (Error ''Generated signature is invalid'')
                                   else Inr (accept_signature now uuid s signerRole signerInfo
                                               (sd_signature signatureData) publicKey)))))))"

text \<open>
  The route \<^verbatim>\<open>POST /api/signatures/multi/:sessionId/:role\<close> stores the session
  \<^verbatim>\<open>addSignature\<close> returns; when \<^verbatim>\<open>addSignature\<close> throws, nothing has been
  written to the session yet and the stored session stays as it was.
\<close>

record attempt =
  at_now :: int
  at_uuid :: string
  at_role :: string
  at_privateKey :: string
  at_signerInfo :: object

definition sign_route :: "crypto \<Rightarrow> session \<Rightarrow> attempt \<Rightarrow> session" where
  "sign_route cr s a =
     (case addSignature cr (at_now a) (at_uuid a) s (at_role a) (at_privateKey a) (at_signerInfo a) of
        Inl e \<Rightarrow> s
      | Inr s' \<Rightarrow> s')"

definition sign_routes :: "crypto \<Rightarrow> session \<Rightarrow> attempt list \<Rightarrow> session" where
  "sign_routes cr s as = foldl (sign_route cr) s as"

text \<open>\<^verbatim>\<open>verifyMultiSignature(session, document)\<close>\<close>

record signature_result =
  sr_signatureId :: string
  sr_signer :: signer
  sr_valid :: bool
  sr_signedAt :: "int option"
  sr_reason :: string

record verification =
  v_valid :: bool
  v_reason :: string
  v_documentHashMatch :: bool
  v_signatureResults :: "signature_result list"
  v_threshold :: "int option"
  v_totalSignatures :: "nat option"
  v_validSignatures :: "nat option"
  v_sessionStatus :: "string option"
  v_verifiedAt :: "int option"

text \<open>The body of the loop over \<^verbatim>\<open>session.signatures\<close>, with its own \<^verbatim>\<open>try\<close>.\<close>

definition verify_stored :: "crypto \<Rightarrow> session \<Rightarrow> stored_signature \<Rightarrow> signature_result" where
  "verify_stored cr s g =
     (case verify cr (signature g) (documentHash s) (sg_publicKey (sig_signer g)) of
        Inr isValid \<Rightarrow>
          \<lparr>sr_signatureId = signatureId g, sr_signer = sig_signer g, sr_valid = isValid,
           sr_signedAt = Some (signedAt g),
           sr_reason = (if isValid then ''Valid signature'' else ''Invalid signature'')\<rparr>
      | Inl e \<Rightarrow>
          \<lparr>sr_signatureId = signatureId g, sr_signer = sig_signer g, sr_valid = False,
           sr_signedAt = None,
           sr_reason = ''Verification error: '' @ message e\<rparr>)"

definition verifyMultiSignature :: "crypto \<Rightarrow> int \<Rightarrow> session \<Rightarrow> object \<Rightarrow> error + verification" where
  "verifyMultiSignature cr now s document =
     rethrow ''Failed to verify multi-signature: ''
       (case document_hash cr document of
          Inl e \<Rightarrow> Inl e
        | Inr h \<Rightarrow>
            if h \<noteq> documentHash s then
              Inr \<lparr>v_valid = False, v_reason = ''Document has been modified after signing'',
                   v_documentHashMatch = False, v_signatureResults = [],
                   v_threshold = None, v_totalSignatures = None, v_validSignatures = None,
                   v_sessionStatus = None, v_verifiedAt = None\<rparr>
            else
              (let results = map (verify_stored cr s) (signatures s);
                   validSignatures = length (filter sr_valid results);
                   isThresholdMet = (threshold s \<le> int validSignatures)
               in Inr \<lparr>v_valid = isThresholdMet,
                       v_reason =
                         (if isThresholdMet
                          then ''Valid multi-signature with '' @ show_nat validSignatures @ ''/'' @
                               show_int (threshold s) @ '' required signatures''
                          else ''Insufficient valid signatures: '' @ show_nat validSignatures @ ''/'' @
                               show_int (threshold s)),
                       v_documentHashMatch = True, v_signatureResults = results,
                       v_threshold = Some (threshold s),
                       v_totalSignatures = Some (length (signatures s)),
                       v_validSignatures = Some validSignatures,
                       v_sessionStatus = Some (status s), v_verifiedAt = Some now\<rparr>))"

text \<open>
  The threshold as a caller gives it. The route takes it from the body of the request,
  where it is a number, \<^verbatim>\<open>null\<close>, or left out (\<^verbatim>\<open>undefined\<close>); a number is an
  integer here, and a threshold of another type (a string, a boolean) is not modelled.
  In \<^verbatim>\<open>threshold < k\<close> and \<^verbatim>\<open>threshold > k\<close> the threshold is converted to a
  number: \<^verbatim>\<open>null\<close> to 0, and \<^verbatim>\<open>undefined\<close> to \<^verbatim>\<open>NaN\<close> (here \<open>None\<close>), for
  which every comparison is false.
\<close>

datatype threshold_arg =
    ThUndefined
  | ThNull
  | ThNumber int

definition ToNumber :: "threshold_arg \<Rightarrow> int option" where
  "ToNumber thr = (case thr of ThUndefined \<Rightarrow> None | ThNull \<Rightarrow> Some 0 | ThNumber t \<Rightarrow> Some t)"

definition less_than :: "threshold_arg \<Rightarrow> int \<Rightarrow> bool" where
  "less_than thr k = (case ToNumber thr of None \<Rightarrow> False | Some t \<Rightarrow> t < k)"

definition greater_than :: "threshold_arg \<Rightarrow> int \<Rightarrow> bool" where
  "greater_than thr k = (case ToNumber thr of None \<Rightarrow> False | Some t \<Rightarrow> k < t)"

text \<open>
  \<^verbatim>\<open>validateMultiSigConfig(signers, threshold)\<close>, for an array of signers.
  \<^verbatim>\<open>roles.indexOf(role)\<close> is the first position of the role, and
  \<^verbatim>\<open>filter((role, index) => ...)\<close> keeps every later occurrence.
\<close>

record validation =
  cfg_valid :: bool
  cfg_errors :: "string list"

fun indexOf :: "'a list \<Rightarrow> 'a \<Rightarrow> int" where
  "indexOf [] x = - 1"
| "indexOf (y # ys) x = (if y = x then 0 else (let i = indexOf ys x in if i < 0 then - 1 else i + 1))"

definition duplicateRoles :: "string list \<Rightarrow> string list" where
  "duplicateRoles roles =
     map fst (filter (\<lambda>(role, index). indexOf roles role \<noteq> int index) (zip roles [0..<length roles]))"

definition validateMultiSigConfig :: "signer_input list \<Rightarrow> threshold_arg \<Rightarrow> validation" where
  "validateMultiSigConfig signers thr =
     (let errors0 = [];
          errors1 = (if length signers = 0 then errors0 @ [''At least one signer is required''] else errors0);
          errors2 = (if MAX_SIGNERS < length signers
                     then errors1 @ [''Maximum '' @ show_nat MAX_SIGNERS @ '' signers allowed''] else errors1);
          errors3 = (if less_than thr MIN_SIGNERS
                     then errors2 @ [''Minimum threshold is '' @ show_int MIN_SIGNERS] else errors2);
          errors4 = (if greater_than thr (int (length signers))
                     then errors3 @ [''Threshold cannot exceed number of signers''] else errors3);
          roles = map si_role signers;
          errors5 = (if 0 < length (duplicateRoles roles)
                     then errors4 @ [''Duplicate signer roles found: '' @ join '', '' (duplicateRoles roles)]
                     else errors4)
      in \<lparr>cfg_valid = (length errors5 = 0), cfg_errors = errors5\<rparr>)"

text \<open>
  The route \<^verbatim>\<open>POST /api/documents/:id/prepare-signing\<close>, once the document is found:
  status 400 with the list of errors when the configuration is invalid, status 500 when
  the initialization throws, the new session otherwise. The route hands the threshold
  of the request on to \<^verbatim>\<open>initializeMultiSigSession\<close>, where the default value
  \<^verbatim>\<open>null\<close> of the parameter stands in for one left out: \<open>supplied\<close> is the
  threshold as that function sees it.
\<close>

datatype prepared =
    InvalidConfig "string list"
  | ServerError error
  | Prepared session

definition supplied :: "threshold_arg \<Rightarrow> int option" where
  "supplied thr = (case thr of ThUndefined \<Rightarrow> None | ThNull \<Rightarrow> None | ThNumber t \<Rightarrow> Some t)"

definition prepare_signing ::
  "crypto \<Rightarrow> int \<Rightarrow> string \<Rightarrow> string \<Rightarrow> object \<Rightarrow> signer_input list \<Rightarrow> threshold_arg \<Rightarrow> prepared" where
  "prepare_signing cr now uuid1 uuid2 document signers thr =
     (let validation = validateMultiSigConfig signers thr in
      if \<not> cfg_valid validation then InvalidConfig (cfg_errors validation)
      else
        (case initializeMultiSigSession cr now uuid1 uuid2 document signers (supplied thr) of
           Inl e \<Rightarrow> ServerError e
         | Inr s \<Rightarrow> Prepared s))"

section \<open>QRCodeService\<close>

text \<open>
  Reading a property of any value: \<^verbatim>\<open>v.key\<close> for an object, \<^verbatim>\<open>undefined\<close> for
  the property names used here on a string, a number, a boolean or an array, and
  \<^verbatim>\<open>v?.key\<close> gives \<^verbatim>\<open>undefined\<close> for \<^verbatim>\<open>null\<close> and \<^verbatim>\<open>undefined\<close>.
\<close>

definition read_prop :: "json \<Rightarrow> string \<Rightarrow> json" where
  "read_prop v key = (case v of JObj obj \<Rightarrow> get obj key | _ \<Rightarrow> JUndefined)"

text \<open>The object \<^verbatim>\<open>verificationPayload\<close>; \<open>timestamp\<close> is \<^verbatim>\<open>new Date().toISOString()\<close>.\<close>

definition verificationPayload :: "string \<Rightarrow> object \<Rightarrow> object \<Rightarrow> json" where
  "verificationPayload timestamp signatureData documentMetadata =
     JObj
      [(''type'', JStr ''document_verification''),
       (''version'', JStr ''1.0''),
       (''documentId'', get documentMetadata ''id''),
       (''documentHash'', get signatureData ''documentHash''),
       (''signatureType'', or_else (get signatureData ''type'') (JStr ''single'')),
       (''timestamp'', JStr timestamp),
       (''metadata'', JObj
          [(''title'', get documentMetadata ''title''),
           (''type'', get documentMetadata ''type''),
           (''issuer'', get documentMetadata ''issuer''),
           (''recipient'', get documentMetadata ''recipient''),
           (''issueDate'', get documentMetadata ''issueDate'')]),
       (''signature'', JObj
          [(''algorithm'', get signatureData ''algorithm''),
           (''data'', or_else (get signatureData ''signatures'') (get signatureData ''signature'')),
           (''signers'', or_else (get signatureData ''signers'')
              (JArr [JObj
                 [(''role'', read_prop (get signatureData ''signer'') ''role''),
                  (''name'', read_prop (get signatureData ''signer'') ''name''),
                  (''publicKey'', read_prop (get signatureData ''signer'') ''publicKey'')]]))])]"

text \<open>
  The object written to the QR code in place of a payload that is too long.
  \<^verbatim>\<open>documentHash.substring(0, 16)\<close> is the first 16 code units of the string.
\<close>

definition verificationReference :: "string \<Rightarrow> string \<Rightarrow> object \<Rightarrow> object \<Rightarrow> json" where
  "verificationReference verificationId hash signatureData documentMetadata =
     JObj
      [(''type'', JStr ''verification_url''),
       (''verificationId'', JStr verificationId),
       (''url'', JStr (''/api/verification/'' @ verificationId)),
       (''documentId'', get documentMetadata ''id''),
       (''quickVerify'', JObj
          [(''documentHash'', JStr (take 16 hash)),
           (''signatureCount'',
              JNum (case get signatureData ''signatures'' of
                      JArr xs \<Rightarrow> int (length xs)
                    | _ \<Rightarrow> 1))])]"

text \<open>The \<^verbatim>\<open>TypeError\<close> of \<^verbatim>\<open>v.substring(0, 16)\<close> when \<open>v\<close> is not a string.\<close>

definition substring_error :: "json \<Rightarrow> error" where
  "substring_error v =
     (case v of
        JUndefined \<Rightarrow> Error ''Cannot read properties of undefined (reading 'substring')''
      | JNull \<Rightarrow> Error ''Cannot read properties of null (reading 'substring')''
      | _ \<Rightarrow> Error ''signatureData.documentHash.substring is not a function'')"

record stored_verification =
  sv_data :: json
  sv_createdAt :: int
  sv_expiresAt :: int

type_synonym verification_store = "string \<rightharpoonup> stored_verification"

definition storeVerificationData ::
  "int \<Rightarrow> verification_store \<Rightarrow> string \<Rightarrow> json \<Rightarrow> verification_store" where
  "storeVerificationData now store verificationId data =
     store(verificationId \<mapsto>
       \<lparr>sv_data = data, sv_createdAt = now, sv_expiresAt = now + 30 * 24 * 60 * 60 * 1000\<rparr>)"

record qr_result =
  qrImage :: string
  qrData :: string
  payload :: json
  qr_size :: nat
  compressed :: bool

text \<open>
  \<^verbatim>\<open>generateDocumentQR(signatureData, documentMetadata)\<close>. The image comes from the
  library call \<^verbatim>\<open>QRCode.toDataURL\<close>, a parameter here, which can throw. The store of
  verification data is passed in and returned: it is written before the image is made.
\<close>

definition generateDocumentQR ::
  "(string \<Rightarrow> error + string) \<Rightarrow> int \<Rightarrow> string \<Rightarrow> string \<Rightarrow> verification_store \<Rightarrow> object \<Rightarrow> object \<Rightarrow>
     verification_store \<times> (error + qr_result)" where
  "generateDocumentQR toDataURL now timestamp uuid store signatureData documentMetadata =
     (case JSON_stringify (verificationPayload timestamp signatureData documentMetadata) of
        None \<Rightarrow>
          (store, Inl (Error ''Failed to generate QR code: Cannot read properties of undefined (reading 'length')''))
      | Some payloadString \<Rightarrow>
          (case (if 2000 < length payloadString then
                   (case get signatureData ''documentHash'' of
                      JStr hash \<Rightarrow>
                        (storeVerificationData now store uuid
                           (verificationPayload timestamp signatureData documentMetadata),
                         Inr (JSON_stringify
                               (verificationReference uuid hash signatureData documentMetadata)))
                    | v \<Rightarrow> (store, Inl (substring_error v)))
                 else (store, Inr (Some payloadString))) of
             (store', Inl e) \<Rightarrow> (store', rethrow ''Failed to generate QR code: '' (Inl e))
           | (store', Inr None) \<Rightarrow> (store', Inl (Error ''Failed to generate QR code: No input text''))
           | (store', Inr (Some qr_text)) \<Rightarrow>
               (store',
                rethrow ''Failed to generate QR code: ''
                  (case toDataURL qr_text of
                     Inl e \<Rightarrow> Inl e
                   | Inr img \<Rightarrow>
                       Inr \<lparr>qrImage = img, qrData = qr_text,
                            payload = verificationPayload timestamp signatureData documentMetadata,
                            qr_size = length payloadString,
                            compressed = (2000 < length payloadString)\<rparr>))))"

text \<open>\<^verbatim>\<open>parseQRData(qrData)\<close>; the result is the object it returns.\<close>

definition parseQRData :: "string \<Rightarrow> error + object" where
  "parseQRData qr_text =
     rethrow ''Failed to parse QR data: ''
       (case JSON_parse qr_text of
          Inl e \<Rightarrow> Inl e
        | Inr parsedData \<Rightarrow>
            if parsedData = JNull then Inl (Error ''Cannot read properties of null (reading 'type')'')
            else if read_prop parsedData ''type'' = JStr ''verification_url'' then
              Inr [(''type'', JStr ''url_verification''),
                   (''verificationId'', read_prop parsedData ''verificationId''),
                   (''url'', read_prop parsedData ''url''),
                   (''documentId'', read_prop parsedData ''documentId''),
                   (''quickVerify'', read_prop parsedData ''quickVerify'')]
            else if read_prop parsedData ''type'' = JStr ''document_verification'' then
              Inr [(''type'', JStr ''embedded_verification''), (''payload'', parsedData)]
            else Inl (Error ''Unknown QR code format''))"

section \<open>A stand-in for the primitives\<close>

text \<open>
  To run the model on concrete inputs the primitives need values. In this stand-in the
  digest of a text is the text, a signature is the public half of the secret key followed
  by the first 32 bytes of the zero-padded message, and a signature opens under a public
  key when both halves agree.
\<close>

definition demo_crypto :: crypto where
  "demo_crypto =
     \<lparr>sha256_hex = (\<lambda>s. s),
      crypto_sign = (\<lambda>msg sk. drop 32 sk @ take 32 (msg @ replicate 32 0)),
      crypto_sign_open = (\<lambda>msg sig pk. take 32 sig = pk \<and> drop 32 sig = take 32 (msg @ replicate 32 0))\<rparr>"

section \<open>SHA-256\<close>

















text \<open>
  Two secret keys in base64, each of 64 bytes: 86 characters and the padding. The first
  decodes to zero bytes; the public halves of the two differ.
\<close>

definition demo_key_A :: string where
  "demo_key_A = replicate 86 CHR ''A'' @ ''==''"

definition demo_key_B :: string where
  "demo_key_B = replicate 86 CHR ''B'' @ ''==''"

definition demo_signers :: "signer_input list" where
  "demo_signers =
     [\<lparr>si_role = ''dosen'', si_name = ''Dosen Pembimbing'', si_email = ''dosen@unismuh.ac.id'', si_required = None\<rparr>,
      \<lparr>si_role = ''kaprodi'', si_name = ''Ketua Prodi'', si_email = ''kaprodi@unismuh.ac.id'', si_required = None\<rparr>,
      \<lparr>si_role = ''dekan'', si_name = ''Dekan'', si_email = ''dekan@unismuh.ac.id'', si_required = Some False\<rparr>]"

definition demo_document :: object where
  "demo_document =
     [(''id'', JStr ''doc-1''), (''title'', JStr ''Ijazah''),
      (''content'', JStr ''Isi dokumen''), (''metadata'', JObj [])]"

text \<open>
  The session the route prepares for this document with threshold 2, and three requests
  to sign it, by dosen, kaprodi and dekan.
\<close>

definition demo_session :: session where
  "demo_session =
     \<lparr>sessionId = ''session-1'', documentId = JStr ''doc-1'',
      documentHash = quote ''Isi dokumen'',
      requiredSigners =
        [\<lparr>rs_role = ''dosen'', rs_name = ''Dosen Pembimbing'', rs_email = ''dosen@unismuh.ac.id'',
          rs_required = True, rs_status = ''pending'', rs_signedAt = None\<rparr>,
         \<lparr>rs_role = ''kaprodi'', rs_name = ''Ketua Prodi'', rs_email = ''kaprodi@unismuh.ac.id'',
          rs_required = True, rs_status = ''pending'', rs_signedAt = None\<rparr>,
         \<lparr>rs_role = ''dekan'', rs_name = ''Dekan'', rs_email = ''dekan@unismuh.ac.id'',
          rs_required = False, rs_status = ''pending'', rs_signedAt = None\<rparr>],
      threshold = 2, signatures = [], status = ''pending'', createdAt = 1000,
      expiresAt = 604801000, completedAt = None, lastUpdated = None,
      metadata = \<lparr>totalSigners = 3, signedCount = 0, pendingCount = 3\<rparr>\<rparr>"

definition demo_attempt_dosen :: attempt where
  "demo_attempt_dosen =
     \<lparr>at_now = 2000, at_uuid = ''signature-1'', at_role = ''dosen'',
      at_privateKey = demo_key_A, at_signerInfo = [(''name'', JStr ''Dosen Pembimbing'')]\<rparr>"

definition demo_attempt_kaprodi :: attempt where
  "demo_attempt_kaprodi =
     \<lparr>at_now = 3000, at_uuid = ''signature-2'', at_role = ''kaprodi'',
      at_privateKey = demo_key_B, at_signerInfo = [(''name'', JStr ''Ketua Prodi'')]\<rparr>"

definition demo_attempt_dekan :: attempt where
  "demo_attempt_dekan =
     \<lparr>at_now = 4000, at_uuid = ''signature-3'', at_role = ''dekan'',
      at_privateKey = demo_key_B, at_signerInfo = [(''name'', JStr ''Dekan'')]\<rparr>"

text \<open>
  What a run of signing requests observes: whether a request is accepted, and how many
  of a list of requests are.
\<close>

definition accepted :: "crypto \<Rightarrow> session \<Rightarrow> attempt \<Rightarrow> bool" where
  "accepted cr s a =
     (\<not> isl (addSignature cr (at_now a) (at_uuid a) s (at_role a) (at_privateKey a) (at_signerInfo a)))"

fun accepted_count :: "crypto \<Rightarrow> session \<Rightarrow> attempt list \<Rightarrow> nat" where
  "accepted_count cr s [] = 0"
| "accepted_count cr s (a # as) =
     (if accepted cr s a then 1 else 0) + accepted_count cr (sign_route cr s a) as"

text \<open>The invariant of a session with threshold \<open>t\<close> that the signing route keeps.\<close>

definition session_inv :: "int \<Rightarrow> session \<Rightarrow> bool" where
  "session_inv t s =
     (threshold s = t \<and>
      (status s = ''completed'') = (t \<le> int (length (signatures s))) \<and>
      (status s = ''completed'' \<or> status s = ''pending'') \<and>
      (status s = ''completed'') = (completedAt s \<noteq> None) \<and>
      int (length (signatures s)) \<le> t)"

text \<open>
  The demonstration session after dosen has signed, after kaprodi has signed as well,
  and a session whose status reads \<^verbatim>\<open>cancelled\<close>.
\<close>

definition demo_session_1 :: session where
  "demo_session_1 =
     accept_signature 2000 ''signature-1'' demo_session ''dosen'' [(''name'', JStr ''Dosen Pembimbing'')]
       ''AAAAAAAAAAAAAAAAAAAAAAAAAAAAAAAAAAAAAAAAAAAiSXNpIGRva3VtZW4iAAAAAAAAAAAAAAAAAAAAAAAAAA==''
       ''AAAAAAAAAAAAAAAAAAAAAAAAAAAAAAAAAAAAAAAAAAA=''"

definition demo_session_2 :: session where
  "demo_session_2 =
     accept_signature 3000 ''signature-2'' demo_session_1 ''kaprodi'' [(''name'', JStr ''Ketua Prodi'')]
       ''QQQQQQQQQQQQQQQQQQQQQQQQQQQQQQQQQQQQQQQQQQQiSXNpIGRva3VtZW4iAAAAAAAAAAAAAAAAAAAAAAAAAA==''
       ''QQQQQQQQQQQQQQQQQQQQQQQQQQQQQQQQQQQQQQQQQQQ=''"

definition demo_cancelled :: session where
  "demo_cancelled = demo_session\<lparr>status := ''cancelled''\<rparr>"

text \<open>
  A genuine Ed25519 key pair, the first test vector of RFC 8032 (section 7.1), in base64:
  the secret key as tweetnacl lays it out, the 32 bytes of the seed followed by the 32
  bytes of the public key, and the public key.
\<close>

definition rfc8032_secret_key :: string where
  "rfc8032_secret_key =
     ''nWGxne/9WmC6hEr0kuwsxERJxWl7MmkZcDusAxyuf2DXWpgBgrEKt9VL/tPJZAc6DuFy89qmIyWvAhpo9wdRGg==''"

definition rfc8032_public_key :: string where
  "rfc8032_public_key = ''11qYAYKxCrfVS/7TyWQHOg7hcvPapiMlrwIaaPcHURo=''"


text \<open>
  The completed demonstration session with a third stored signature that is not 64
  bytes long, placed between the other two, and the document with another content.
\<close>

definition demo_session_3 :: session where
  "demo_session_3 =
     demo_session_2\<lparr>signatures :=
       [signatures demo_session_2 ! 0,
        \<lparr>signatureId = ''signature-3'', signature = ''AAAA'',
         sig_signer = \<lparr>sg_info = [], sg_role = ''dekan'', sg_publicKey = ''AAAA''\<rparr>,
         signedAt = 3500, sig_documentHash = documentHash demo_session_2, sig_valid = True\<rparr>,
        signatures demo_session_2 ! 1]\<rparr>"

definition demo_document_tampered :: object where
  "demo_document_tampered =
     [(''id'', JStr ''doc-1''), (''title'', JStr ''Ijazah''),
      (''content'', JStr ''Isi dokumen lain''), (''metadata'', JObj [])]"






text \<open>
  Inputs to run the QR service on: a stand-in for the image library, the metadata of the
  demonstration document, the artifact of a single signature, the same metadata with a
  title of 800 letters \<^verbatim>\<open>e\<close> with an acute accent (code unit 233, two bytes in
  UTF-8), and an aggregate of five signatures by signers with long names.
\<close>

definition demo_toDataURL :: "string \<Rightarrow> error + string" where
  "demo_toDataURL text =
     (if text = [] then Inl (Error ''No input text'') else Inr ''data:image/png;base64,iVBORw0KGgo='')"

definition demo_metadata :: object where
  "demo_metadata =
     [(''id'', JStr ''doc-1''), (''title'', JStr ''Ijazah''), (''type'', JStr ''ijazah''),
      (''issuer'', JStr ''Universitas Muhammadiyah Makassar''), (''recipient'', JStr ''Ahmad''),
      (''issueDate'', JStr ''2024-01-01T00:00:00.000Z'')]"

definition demo_single :: object where
  "demo_single =
     [(''documentId'', JStr ''doc-1''),
      (''documentHash'', JStr ''9f86d081884c7d659a2feaa0c55ad015a3bf4f1b2b0b822cd15d6c15b0f00a08''),
      (''signature'', JStr ''AAAAAAAAAAAAAAAAAAAAAAAAAAAAAAAAAAAAAAAAAAAiSXNpIGRva3VtZW4iAAAAAAAAAAAAAAAAAAAAAAAAAA==''),
      (''signer'', JObj [(''role'', JStr ''dosen''), (''name'', JStr ''Dosen Pembimbing''),
                         (''publicKey'', JStr ''AAAAAAAAAAAAAAAAAAAAAAAAAAAAAAAAAAAAAAAAAAA='')]),
      (''metadata'', JObj [(''algorithm'', JStr ''Ed25519''), (''version'', JStr ''1.0'')])]"

definition demo_metadata_accents :: object where
  "demo_metadata_accents =
     [(''id'', JStr ''doc-1''), (''title'', JStr (replicate 800 (CHR 0xE9))), (''type'', JStr ''ijazah''),
      (''issuer'', JStr ''Universitas Muhammadiyah Makassar''), (''recipient'', JStr ''Ahmad''),
      (''issueDate'', JStr ''2024-01-01T00:00:00.000Z'')]"

definition demo_aggregate_entry :: "string \<Rightarrow> json" where
  "demo_aggregate_entry role =
     JObj [(''signer'', JObj [(''role'', JStr role),
                              (''name'', JStr (''Prof. Dr. '' @ replicate 120 CHR ''A'' @ '', M.T.'')),
                              (''publicKey'', JStr ''AAAAAAAAAAAAAAAAAAAAAAAAAAAAAAAAAAAAAAAAAAA='')]),
           (''signature'', JStr ''AAAAAAAAAAAAAAAAAAAAAAAAAAAAAAAAAAAAAAAAAAAiSXNpIGRva3VtZW4iAAAAAAAAAAAAAAAAAAAAAAAAAA==''),
           (''signedAt'', JStr ''2024-01-02T00:00:00.000Z'')]"

definition demo_aggregate :: object where
  "demo_aggregate =
     [(''type'', JStr ''multi-signature''), (''algorithm'', JStr ''EdDSA-Multi''),
      (''sessionId'', JStr ''session-1''), (''documentId'', JStr ''doc-1''),
      (''documentHash'', JStr ''9f86d081884c7d659a2feaa0c55ad015a3bf4f1b2b0b822cd15d6c15b0f00a08''),
      (''threshold'', JNum 5),
      (''signatures'', JArr (map demo_aggregate_entry [''dosen'', ''kaprodi'', ''dekan'', ''rektor'', ''admin'']))]"

text \<open>A character that \<^verbatim>\<open>JSON.stringify\<close> writes as it is and UTF-8 as one byte.\<close>

definition plain :: "char \<Rightarrow> bool" where
  "plain c = (32 \<le> (of_char c :: nat) \<and> (of_char c :: nat) < 128 \<and>
              (of_char c :: nat) \<noteq> 34 \<and> (of_char c :: nat) \<noteq> 92)"


section \<open>\<^verbatim>\<open>JSON.parse\<close> reads back what \<^verbatim>\<open>JSON.stringify\<close> writes\<close>

lemma char_eqI: "(of_char c :: nat) = of_char d \<Longrightarrow> c = d"
  by simp

lemma hex_val_hex_digit: "k < 16 \<Longrightarrow> hex_val (hex_digit k) = Some k"
  by (auto simp: hex_val_def hex_digit_def Let_def)

lemma cons_result_simps [simp]:
  "cons_result c None = None" "cons_result c (Some (t, r)) = Some (c # t, r)"
  by (simp_all add: cons_result_def)

lemma parse_string_quote_char: "parse_string (quote_char c @ r) = cons_result c (parse_string r)"
proof -
  let ?n = "of_char c :: nat"
  have c: "c = char_of ?n" by simp
  consider "?n = 8" | "?n = 9" | "?n = 10" | "?n = 12" | "?n = 13" | "?n = 34" | "?n = 92"
    | "?n < 32" "?n \<notin> {8, 9, 10, 12, 13}" | "32 \<le> ?n" "?n \<noteq> 34" "?n \<noteq> 92"
    by fastforce
  then show ?thesis
  proof cases
    case 1
    then have "c = CHR 0x08" by (intro char_eqI) simp
    then show ?thesis by (simp add: quote_char_def unescape_def)
  next
    case 2
    then have "c = CHR 0x09" by (intro char_eqI) simp
    then show ?thesis by (simp add: quote_char_def unescape_def)
  next
    case 3
    then have "c = CHR 0x0A" by (intro char_eqI) simp
    then show ?thesis by (simp add: quote_char_def unescape_def)
  next
    case 4
    then have "c = CHR 0x0C" by (intro char_eqI) simp
    then show ?thesis by (simp add: quote_char_def unescape_def)
  next
    case 5
    then have "c = CHR 0x0D" by (intro char_eqI) simp
    then show ?thesis by (simp add: quote_char_def unescape_def)
  next
    case 6
    then have "c = CHR 0x22" by (intro char_eqI) simp
    then show ?thesis by (simp add: quote_char_def unescape_def)
  next
    case 7
    then have "c = CHR 0x5C" by (intro char_eqI) simp
    then show ?thesis by (simp add: quote_char_def unescape_def)
  next
    case 8
    then have q: "quote_char c = [CHR 0x5C, CHR ''u'', CHR ''0'', CHR ''0'', hex_digit (?n div 16), hex_digit (?n mod 16)]"
      by (auto simp: quote_char_def Let_def)
    have h0: "hex_val CHR ''0'' = Some 0" by (simp add: hex_val_def)
    from 8 have d: "?n div 16 < 16" "?n mod 16 < 16" by simp_all
    have v: "((0 * 16 + 0) * 16 + ?n div 16) * 16 + ?n mod 16 = ?n" by simp
    from 8 have lt: "?n < 256" by simp
    show ?thesis
      unfolding q
      by (simp add: h0 hex_val_hex_digit[OF d(1)] hex_val_hex_digit[OF d(2)] lt del: of_char_of char_of_char)
         (simp)
  next
    case 9
    then have q: "quote_char c = [c]" by (auto simp: quote_char_def Let_def)
    from 9 have "c \<noteq> CHR 0x22" "c \<noteq> CHR 0x5C" by auto
    with 9 show ?thesis unfolding q by simp
  qed
qed

lemma parse_string_quote: "parse_string (concat (map quote_char s) @ CHR 0x22 # rest) = Some (s, rest)"
  by (induction s) (simp_all add: parse_string_quote_char)

lemma parse_string_quoted: "parse_string (tl (quote s) @ rest) = Some (s, rest)"
  by (simp add: quote_def parse_string_quote)

lemma is_digit_char_of: "k < 10 \<Longrightarrow> is_digit (char_of (48 + k :: nat))"
  by (simp add: is_digit_def)

lemma digit_val_char_of: "k < 10 \<Longrightarrow> (of_char (char_of (48 + k :: nat) :: char) :: nat) - 48 = k"
  by simp

lemma show_nat_digits: "list_all is_digit (show_nat n)"
proof (induction n rule: show_nat.induct)
  case (1 n)
  show ?case
  proof (cases "n < 10")
    case True
    then show ?thesis by (subst show_nat.simps) (simp add: is_digit_char_of)
  next
    case False
    with 1 show ?thesis by (subst show_nat.simps) (simp add: is_digit_char_of)
  qed
qed

lemma show_nat_nonempty: "show_nat n \<noteq> []"
  by (subst show_nat.simps) simp

lemma digits_value_snoc: "digits_value (ds @ [d]) = 10 * digits_value ds + ((of_char d :: nat) - 48)"
  by (simp add: digits_value_def)

lemma digits_value_show_nat: "digits_value (show_nat n) = n"
proof (induction n rule: show_nat.induct)
  case (1 n)
  show ?case
  proof (cases "n < 10")
    case True
    then show ?thesis by (subst show_nat.simps) (simp add: digits_value_def)
  next
    case False
    have "n mod 10 < 10" by simp
    from digit_val_char_of[OF this] False 1 show ?thesis
      by (subst show_nat.simps) (simp add: digits_value_snoc del: of_char_of)
  qed
qed

lemma show_nat_hd: "0 < n \<Longrightarrow> hd (show_nat n) \<noteq> CHR ''0''"
proof (induction n rule: show_nat.induct)
  case (1 n)
  show ?case
  proof (cases "n < 10")
    case True
    with 1(2) have "(of_char (char_of (48 + n) :: char) :: nat) \<noteq> of_char CHR ''0''" by simp
    then have "char_of (48 + n) \<noteq> CHR ''0''" by (metis)
    with True show ?thesis by (subst show_nat.simps) simp
  next
    case False
    then have "0 < n div 10" by simp
    with 1 False have "hd (show_nat (n div 10)) \<noteq> CHR ''0''" by simp
    with False show ?thesis by (subst show_nat.simps) (simp add: show_nat_nonempty)
  qed
qed

lemma show_nat_zero: "show_nat 0 = ''0''"
  by (subst show_nat.simps) (simp, intro char_eqI, simp)

lemma show_nat_leading: "hd (show_nat n) = CHR ''0'' \<Longrightarrow> length (show_nat n) = 1"
  by (cases "n = 0") (auto simp: show_nat_zero dest: show_nat_hd)

lemma delimited_number_end: "delimited rest \<Longrightarrow> number_end rest"
  by (auto simp: delimited_def number_end_def is_digit_def split: list.splits)

lemma takeWhile_digits:
  "list_all is_digit ds \<Longrightarrow> number_end rest \<Longrightarrow>
   takeWhile is_digit (ds @ rest) = ds \<and> dropWhile is_digit (ds @ rest) = rest"
  by (cases rest) (auto simp: number_end_def list_all_iff takeWhile_append2 dropWhile_append2)

lemma parse_digits_show_nat:
  assumes "number_end rest"
  shows "parse_digits (show_nat n @ rest) = Some (n, rest)"
proof -
  from takeWhile_digits[OF show_nat_digits assms, of n]
  have t: "takeWhile is_digit (show_nat n @ rest) = show_nat n"
    and d: "dropWhile is_digit (show_nat n @ rest) = rest" by simp_all
  from assms have r: "\<not> (rest \<noteq> [] \<and> (hd rest = CHR ''.'' \<or> hd rest = CHR ''e'' \<or> hd rest = CHR ''E''))"
    by (auto simp: number_end_def)
  have l: "\<not> (hd (show_nat n) = CHR ''0'' \<and> 1 < length (show_nat n))"
    using show_nat_leading[of n] by auto
  show ?thesis
    unfolding parse_digits_def Let_def t d
    using r l by (simp add: show_nat_nonempty digits_value_show_nat)
qed

lemma show_nat_first: "\<exists>c cs. show_nat n = c # cs \<and> is_digit c"
  using show_nat_digits[of n] show_nat_nonempty[of n] by (cases "show_nat n") auto

lemma parse_number_show_int:
  assumes "number_end rest"
  shows "parse_number (show_int i @ rest) = Some (i, rest)"
proof (cases "i < 0")
  case True
  then show ?thesis
    by (simp add: parse_number_def show_int_def parse_digits_show_nat[OF assms])
next
  case False
  obtain c cs where c: "show_nat (nat i) = c # cs" "is_digit c" using show_nat_first by blast
  then have "c \<noteq> CHR ''-''" by (auto simp: is_digit_def)
  with False c(1) parse_digits_show_nat[OF assms, of "nat i"] show ?thesis
    by (simp add: parse_number_def show_int_def)
qed

lemma skip_ws_start: "\<not> is_ws c \<Longrightarrow> skip_ws (c # r) = c # r"
  by (simp add: skip_ws_def)

lemma join_Cons: "xs \<noteq> [] \<Longrightarrow> join sep (x # xs) = x @ sep @ join sep xs"
  by (cases xs) simp_all

lemma stringify_None_iff: "(JSON_stringify v = None) = (v = JUndefined)"
  by (cases v) simp_all

lemma show_int_first: "\<exists>c cs. show_int i = c # cs \<and> (is_digit c \<or> c = CHR ''-'')"
  using show_nat_first[of "nat i"] by (auto simp: show_int_def)

lemma stringify_first:
  assumes "JSON_stringify w = Some t"
  shows "\<exists>c cs. t = c # cs \<and> value_start c"
proof (cases w)
  case (JNum i)
  obtain c cs where "show_int i = c # cs" "is_digit c \<or> c = CHR ''-''" using show_int_first by blast
  with assms JNum show ?thesis by (auto simp: value_start_def is_ws_def is_digit_def)
qed (use assms in \<open>auto simp: value_start_def is_ws_def quote_def\<close>)

lemma parse_value_null: "parse_value (Suc m) (''null'' @ rest) = Some (JNull, rest)"
  by (simp add: skip_ws_start is_ws_def)

lemma parse_value_true: "parse_value (Suc m) (''true'' @ rest) = Some (JBool True, rest)"
  by (simp add: skip_ws_start is_ws_def)

lemma parse_value_false: "parse_value (Suc m) (''false'' @ rest) = Some (JBool False, rest)"
  by (simp add: skip_ws_start is_ws_def)

lemma parse_value_str: "parse_value (Suc m) (quote s @ rest) = Some (JStr s, rest)"
  by (simp add: quote_def skip_ws_start is_ws_def parse_string_quote)

lemma parse_value_num:
  assumes "number_end rest"
  shows "parse_value (Suc m) (show_int i @ rest) = Some (JNum i, rest)"
proof -
  obtain c cs where c: "show_int i = c # cs" "is_digit c \<or> c = CHR ''-''" using show_int_first by blast
  from parse_number_show_int[OF assms, of i] c(1)
  have pn: "parse_number (c # cs @ rest) = Some (i, rest)" by simp
  from c(2) have "\<not> is_ws c" "c \<noteq> CHR ''{''" "c \<noteq> CHR ''[''" "c \<noteq> CHR 0x22"
    "c \<noteq> CHR ''t''" "c \<noteq> CHR ''f''" "c \<noteq> CHR ''n''"
    by (auto simp: is_ws_def is_digit_def)
  with pn show ?thesis
    by (simp add: c(1) skip_ws_start)
qed

lemma set_prop_fresh: "k \<notin> fst ` set obj \<Longrightarrow> set_prop obj k v = obj @ [(k, v)]"
  by (induction obj) auto

lemma object_of_acc:
  "distinct (map fst (acc @ kvs)) \<Longrightarrow> foldl (\<lambda>obj (k, v). set_prop obj k v) acc kvs = acc @ kvs"
proof (induction kvs arbitrary: acc)
  case Nil
  then show ?case by simp
next
  case (Cons p kvs)
  obtain k v where p: "p = (k, v)" by (cases p)
  from Cons.prems p have "k \<notin> fst ` set acc" by auto
  then have s: "set_prop acc k v = acc @ [(k, v)]" by (rule set_prop_fresh)
  from Cons.prems p have "distinct (map fst ((acc @ [(k, v)]) @ kvs))" by simp
  from Cons.IH[OF this] s p show ?case by simp
qed

lemma object_of_distinct: "distinct (map fst kvs) \<Longrightarrow> object_of kvs = kvs"
  using object_of_acc[of "[]" kvs] by (simp add: object_of_def)

lemma parse_elements_join:
  assumes "xs \<noteq> []"
    and "\<And>x n rest. x \<in> set xs \<Longrightarrow> need x \<le> n \<Longrightarrow> delimited rest \<Longrightarrow>
           parse_value n (elem_text x @ rest) = Some (x, rest)"
    and "sum_list (map (\<lambda>x. 1 + need x) xs) \<le> n"
  shows "parse_elements n (join '','' (map elem_text xs) @ CHR '']'' # rest) = Some (xs, rest)"
  using assms
proof (induction xs arbitrary: n rule: list_nonempty_induct)
  case (single x)
  then obtain m where n: "n = Suc m" "need x \<le> m" by (cases n) auto
  have "delimited (CHR '']'' # rest)" by (simp add: delimited_def)
  from single(1)[OF _ n(2) this]
  have "parse_value m (elem_text x @ CHR '']'' # rest) = Some (x, CHR '']'' # rest)" by simp
  then show ?case by (simp add: n(1) skip_ws_start is_ws_def)
next
  case (cons x xs)
  then obtain m where n: "n = Suc m" "need x \<le> m" "sum_list (map (\<lambda>x. 1 + need x) xs) \<le> m"
    by (cases n) auto
  have "delimited (CHR '','' # join '','' (map elem_text xs) @ CHR '']'' # rest)" by (simp add: delimited_def)
  from cons.prems(1)[OF _ n(2) this]
  have 1: "parse_value m (elem_text x @ CHR '','' # join '','' (map elem_text xs) @ CHR '']'' # rest)
           = Some (x, CHR '','' # join '','' (map elem_text xs) @ CHR '']'' # rest)" by simp
  have 2: "parse_elements m (join '','' (map elem_text xs) @ CHR '']'' # rest) = Some (xs, rest)"
    by (rule cons.IH[OF _ n(3)]) (simp add: cons.prems(1))
  from cons.hyps have j: "join '','' (map elem_text (x # xs)) = elem_text x @ '','' @ join '','' (map elem_text xs)"
    by (simp add: join_Cons)
  show ?case
    unfolding j n(1) using 1 2 by (simp add: skip_ws_start is_ws_def)
qed

lemma parse_members_join:
  assumes "kvs \<noteq> []"
    and "\<And>p n rest. p \<in> set kvs \<Longrightarrow> need (snd p) \<le> n \<Longrightarrow> delimited rest \<Longrightarrow>
           parse_value n (elem_text (snd p) @ rest) = Some (snd p, rest)"
    and "sum_list (map (\<lambda>p. 1 + need (snd p)) kvs) \<le> n"
  shows "parse_members n (join '','' (map member_text kvs) @ CHR ''}'' # rest) = Some (kvs, rest)"
  using assms
proof (induction kvs arbitrary: n rule: list_nonempty_induct)
  case (single p)
  then obtain m where n: "n = Suc m" "need (snd p) \<le> m" by (cases n) auto
  have "delimited (CHR ''}'' # rest)" by (simp add: delimited_def)
  from single(1)[OF _ n(2) this]
  have "parse_value m (elem_text (snd p) @ CHR ''}'' # rest) = Some (snd p, CHR ''}'' # rest)" by simp
  then show ?case
    by (simp add: n(1) member_text_def quote_def skip_ws_start is_ws_def parse_string_quote)
next
  case (cons p kvs)
  then obtain m where n: "n = Suc m" "need (snd p) \<le> m" "sum_list (map (\<lambda>p. 1 + need (snd p)) kvs) \<le> m"
    by (cases n) auto
  let ?tail = "join '','' (map member_text kvs) @ CHR ''}'' # rest"
  have "delimited (CHR '','' # ?tail)" by (simp add: delimited_def)
  from cons.prems(1)[OF _ n(2) this]
  have 1: "parse_value m (elem_text (snd p) @ CHR '','' # ?tail) = Some (snd p, CHR '','' # ?tail)" by simp
  have 2: "parse_members m ?tail = Some (kvs, rest)"
    by (rule cons.IH[OF _ n(3)]) (simp add: cons.prems(1))
  from cons.hyps have j: "join '','' (map member_text (p # kvs)) = member_text p @ '','' @ join '','' (map member_text kvs)"
    by (simp add: join_Cons)
  show ?case
    unfolding j n(1) using 1 2
    by (simp add: member_text_def quote_def skip_ws_start is_ws_def parse_string_quote)
qed

lemma defined_not_undefined: "defined v \<Longrightarrow> v \<noteq> JUndefined"
  by auto

lemma elem_text_Some: "JSON_stringify v = Some t \<Longrightarrow> elem_text v = t"
  by (simp add: elem_text_def)

lemma elem_text_arr: "elem_text (JArr xs) = ''['' @ join '','' (map elem_text xs) @ '']''"
proof -
  have "(\<lambda>x. case JSON_stringify x of None \<Rightarrow> ''null'' | Some t \<Rightarrow> t) = elem_text"
    by (rule ext) (simp add: elem_text_def)
  then show ?thesis by (simp add: elem_text_def)
qed

lemma members_defined:
  "list_all (\<lambda>(k, v). defined v) kvs \<Longrightarrow>
   concat (map (\<lambda>(k, v). case JSON_stringify v of None \<Rightarrow> [] | Some t \<Rightarrow> [quote k @ '':'' @ t]) kvs)
     = map member_text kvs"
proof (induction kvs)
  case Nil
  then show ?case by simp
next
  case (Cons p kvs)
  obtain k v where p: "p = (k, v)" by (cases p)
  with Cons.prems have "v \<noteq> JUndefined" by auto
  then obtain t where "JSON_stringify v = Some t" by (auto simp: stringify_None_iff[symmetric])
  with Cons p show ?case by (simp add: member_text_def elem_text_def)
qed

lemma elem_text_obj:
  "list_all (\<lambda>(k, v). defined v) kvs \<Longrightarrow>
   elem_text (JObj kvs) = ''{'' @ join '','' (map member_text kvs) @ ''}''"
  by (simp add: elem_text_def members_defined)

lemma elem_text_first: "v \<noteq> JUndefined \<Longrightarrow> \<exists>c cs. elem_text v = c # cs \<and> value_start c"
proof -
  assume "v \<noteq> JUndefined"
  then obtain t where t: "JSON_stringify v = Some t" by (auto simp: stringify_None_iff[symmetric])
  from stringify_first[OF t] t show ?thesis by (simp add: elem_text_def)
qed

lemma join_first:
  assumes "xs \<noteq> []" "hd xs = c # cs"
  shows "\<exists>ds. join sep xs = c # ds"
proof (cases xs)
  case Nil
  with assms show ?thesis by simp
next
  case (Cons x ys)
  with assms show ?thesis by (cases ys) auto
qed

lemma parse_value_stringify:
  "defined w \<Longrightarrow> distinct_keys w \<Longrightarrow> need w \<le> n \<Longrightarrow> delimited rest \<Longrightarrow>
   parse_value n (elem_text w @ rest) = Some (w, rest)"
proof (induction w arbitrary: n rest)
  case JUndefined
  then show ?case by simp
next
  case JNull
  then obtain m where "n = Suc m" by (cases n) auto
  then show ?case using parse_value_null[of m rest] by (simp add: elem_text_def)
next
  case (JBool b)
  then obtain m where "n = Suc m" by (cases n) auto
  then show ?case using parse_value_true[of m rest] parse_value_false[of m rest]
    by (cases b) (simp_all add: elem_text_def)
next
  case (JNum i)
  then obtain m where "n = Suc m" by (cases n) auto
  then show ?case using parse_value_num[OF delimited_number_end[OF JNum.prems(4)], of m i]
    by (simp add: elem_text_def)
next
  case (JStr s)
  then obtain m where "n = Suc m" by (cases n) auto
  then show ?case using parse_value_str[of m s rest] by (simp add: elem_text_def)
next
  case (JArr xs)
  from JArr.prems obtain m where n: "n = Suc m" "sum_list (map (\<lambda>x. 1 + need x) xs) \<le> m"
    by (cases n) auto
  show ?case
  proof (cases "xs = []")
    case True
    then show ?thesis
      by (simp add: elem_text_arr n(1) skip_ws_start is_ws_def)
  next
    case False
    have ih: "\<And>x n rest. x \<in> set xs \<Longrightarrow> need x \<le> n \<Longrightarrow> delimited rest \<Longrightarrow>
                parse_value n (elem_text x @ rest) = Some (x, rest)"
      using JArr.IH JArr.prems(1,2) by (auto simp: list_all_iff)
    from parse_elements_join[OF False ih n(2), of rest]
    have pe: "parse_elements m (join '','' (map elem_text xs) @ CHR '']'' # rest) = Some (xs, rest)" by simp
    from False JArr.prems(1) have "hd xs \<noteq> JUndefined" by (cases xs) auto
    from elem_text_first[OF this] obtain c cs where "elem_text (hd xs) = c # cs" and vs: "value_start c" by blast
    with False have "hd (map elem_text xs) = c # cs" by (simp add: hd_map)
    from join_first[OF _ this, of "'',''"] False obtain ds where j: "join '','' (map elem_text xs) = c # ds" by auto
    from vs have c: "\<not> is_ws c" "c \<noteq> CHR '']''" by (simp_all add: value_start_def)
    from pe have "parse_elements m (c # ds @ CHR '']'' # rest) = Some (xs, rest)" by (simp add: j)
    with c show ?thesis
      by (simp add: elem_text_arr n(1) j skip_ws_start is_ws_def)
  qed
next
  case (JObj kvs)
  from JObj.prems obtain m where n: "n = Suc m" "sum_list (map (\<lambda>p. 1 + need (snd p)) kvs) \<le> m"
    by (cases n) (auto simp: case_prod_unfold)
  from JObj.prems(1) have d: "list_all (\<lambda>(k, v). defined v) kvs" by simp
  from JObj.prems(2) have dk: "distinct (map fst kvs)" by simp
  show ?case
  proof (cases "kvs = []")
    case True
    then show ?thesis
      by (simp add: elem_text_obj n(1) skip_ws_start is_ws_def)
  next
    case False
    have ih: "\<And>p n rest. p \<in> set kvs \<Longrightarrow> need (snd p) \<le> n \<Longrightarrow> delimited rest \<Longrightarrow>
                parse_value n (elem_text (snd p) @ rest) = Some (snd p, rest)"
    proof -
      fix p n rest
      assume p: "p \<in> set kvs" and a: "need (snd p) \<le> n" "delimited rest"
      obtain k v where kv: "p = (k, v)" by (cases p)
      from p kv JObj.prems(1,2) have "defined v" "distinct_keys v" by (auto simp: list_all_iff)
      from JObj.IH[OF p, of v, OF _ this] kv a
      show "parse_value n (elem_text (snd p) @ rest) = Some (snd p, rest)" by simp
    qed
    from parse_members_join[OF False ih n(2), of rest]
    have pm: "parse_members m (join '','' (map member_text kvs) @ CHR ''}'' # rest) = Some (kvs, rest)" by simp
    from False have "hd (map member_text kvs) = CHR 0x22 # tl (member_text (hd kvs))"
      by (simp add: hd_map member_text_def quote_def)
    from join_first[OF _ this, of "'',''"] False obtain ds where j: "join '','' (map member_text kvs) = CHR 0x22 # ds" by auto
    from pm have "parse_members m (CHR 0x22 # ds @ CHR ''}'' # rest) = Some (kvs, rest)" by (simp add: j)
    then show ?thesis
      by (simp add: elem_text_obj[OF d] n(1) j skip_ws_start is_ws_def object_of_distinct[OF dk])
  qed
qed

lemma length_join_bound:
  assumes "\<And>x. x \<in> set xs \<Longrightarrow> f x \<le> length (g x)"
  shows "sum_list (map (\<lambda>x. 1 + f x) xs) \<le> length (join '','' (map g xs)) + 1"
  using assms
proof (induction xs)
  case Nil
  then show ?case by simp
next
  case (Cons x xs)
  show ?case
  proof (cases "xs = []")
    case True
    with Cons.prems[of x] show ?thesis by simp
  next
    case False
    then have j: "join '','' (map g (x # xs)) = g x @ '','' @ join '','' (map g xs)"
      by (simp add: join_Cons)
    from Cons.IH Cons.prems have "sum_list (map (\<lambda>x. 1 + f x) xs) \<le> length (join '','' (map g xs)) + 1" by simp
    with Cons.prems[of x] show ?thesis unfolding j by simp
  qed
qed

lemma need_le_length: "defined w \<Longrightarrow> need w \<le> length (elem_text w)"
proof (induction w)
  case (JArr xs)
  have "sum_list (map (\<lambda>x. 1 + need x) xs) \<le> length (join '','' (map elem_text xs)) + 1"
    using JArr by (intro length_join_bound) (auto simp: list_all_iff)
  then show ?case by (simp add: elem_text_arr)
next
  case (JObj kvs)
  then have d: "list_all (\<lambda>(k, v). defined v) kvs" by simp
  have "sum_list (map (\<lambda>p. 1 + need (snd p)) kvs) \<le> length (join '','' (map member_text kvs)) + 1"
  proof (intro length_join_bound)
    fix p assume p: "p \<in> set kvs"
    obtain k v where kv: "p = (k, v)" by (cases p)
    with p d have "defined v" by (auto simp: list_all_iff)
    from JObj.IH[OF p, of v, OF _ this] kv show "need (snd p) \<le> length (member_text p)"
      by (simp add: member_text_def)
  qed
  then show ?case by (simp add: elem_text_obj[OF d] case_prod_unfold)
next
  case (JNum i)
  obtain c cs where "show_int i = c # cs" using show_int_first by blast
  then show ?case by (simp add: elem_text_def)
qed (simp_all add: elem_text_def quote_def)

lemma members_norm:
  assumes "\<And>k v. (k, v) \<in> set kvs \<Longrightarrow> JSON_stringify (norm v) = JSON_stringify v"
  shows "concat (map (\<lambda>(k, v). case JSON_stringify v of None \<Rightarrow> [] | Some t \<Rightarrow> [quote k @ '':'' @ t])
           (concat (map (\<lambda>(k, v). if v = JUndefined then [] else [(k, norm v)]) kvs)))
         = concat (map (\<lambda>(k, v). case JSON_stringify v of None \<Rightarrow> [] | Some t \<Rightarrow> [quote k @ '':'' @ t]) kvs)"
  using assms
proof (induction kvs)
  case Nil
  then show ?case by simp
next
  case (Cons p kvs)
  obtain k v where kv: "p = (k, v)" by (cases p)
  have 1: "JSON_stringify (norm v) = JSON_stringify v"
    using Cons.prems[of k v] kv by simp
  have 2: "concat (map (\<lambda>(k, v). case JSON_stringify v of None \<Rightarrow> [] | Some t \<Rightarrow> [quote k @ '':'' @ t])
           (concat (map (\<lambda>(k, v). if v = JUndefined then [] else [(k, norm v)]) kvs)))
         = concat (map (\<lambda>(k, v). case JSON_stringify v of None \<Rightarrow> [] | Some t \<Rightarrow> [quote k @ '':'' @ t]) kvs)"
  proof (rule Cons.IH)
    fix k' v' assume "(k', v') \<in> set kvs"
    then show "JSON_stringify (norm v') = JSON_stringify v'"
      using Cons.prems[of k' v'] by simp
  qed
  show ?case by (simp add: kv 1 2)
qed

lemma stringify_norm: "JSON_stringify (norm v) = JSON_stringify v"
proof (induction v)
  case (JArr xs)
  have m: "map ((\<lambda>x. case JSON_stringify x of None \<Rightarrow> ''null'' | Some t \<Rightarrow> t) \<circ>
             (\<lambda>x. if x = JUndefined then JNull else norm x)) xs
        = map (\<lambda>x. case JSON_stringify x of None \<Rightarrow> ''null'' | Some t \<Rightarrow> t) xs"
    using JArr by (intro map_cong) (auto simp: stringify_None_iff)
  show ?case by (simp add: m)
next
  case (JObj kvs)
  have "\<And>k v. (k, v) \<in> set kvs \<Longrightarrow> JSON_stringify (norm v) = JSON_stringify v"
    using JObj.IH by fastforce
  from members_norm[OF this] show ?case by simp
qed simp_all

lemma norm_not_undefined: "v \<noteq> JUndefined \<Longrightarrow> norm v \<noteq> JUndefined"
  by (cases v) simp_all

lemma norm_keys:
  "map fst (concat (map (\<lambda>(k, v). if v = JUndefined then [] else [(k, norm v)]) kvs))
   = map fst (filter (\<lambda>(k, v). v \<noteq> JUndefined) kvs)"
  by (induction kvs) auto

lemma defined_norm: "v \<noteq> JUndefined \<Longrightarrow> defined (norm v)"
proof (induction v)
  case (JArr xs)
  then show ?case by (auto simp: list_all_iff)
next
  case (JObj kvs)
  have "list_all (\<lambda>(k, v). defined v) (concat (map (\<lambda>(k, v). if v = JUndefined then [] else [(k, norm v)]) kvs))"
    using JObj.IH by (fastforce simp: list_all_iff split: if_splits)
  then show ?case by simp
qed simp_all

lemma distinct_keys_norm: "distinct_keys v \<Longrightarrow> distinct_keys (norm v)"
proof (induction v)
  case (JArr xs)
  then show ?case by (auto simp: list_all_iff)
next
  case (JObj kvs)
  have "list_all (\<lambda>(k, v). distinct_keys v) (concat (map (\<lambda>(k, v). if v = JUndefined then [] else [(k, norm v)]) kvs))"
    using JObj by (fastforce simp: list_all_iff split: if_splits)
  moreover from JObj.prems have "distinct (map fst (filter (\<lambda>(k, v). v \<noteq> JUndefined) kvs))"
    by (simp add: distinct_map_filter)
  ultimately show ?case by (simp add: norm_keys)
qed simp_all

lemma JSON_parse_stringify:
  assumes "distinct_keys v" and "JSON_stringify v = Some t"
  shows "JSON_parse t = Inr (norm v)"
proof -
  from assms(2) have nu: "v \<noteq> JUndefined" by auto
  have d: "defined (norm v)" by (rule defined_norm[OF nu])
  have k: "distinct_keys (norm v)" by (rule distinct_keys_norm[OF assms(1)])
  have t: "elem_text (norm v) = t" using assms(2) by (simp add: elem_text_def stringify_norm)
  from need_le_length[OF d] t have n: "need (norm v) \<le> 2 * length t + 2" by simp
  have "delimited []" by (simp add: delimited_def)
  from parse_value_stringify[OF d k n this] t
  have "parse_value (2 * length t + 2) t = Some (norm v, [])" by simp
  then show ?thesis by (simp add: JSON_parse_def skip_ws_def)
qed


section \<open>Properties of EdDSAService\<close>

lemma rethrow_Inr [simp]: "rethrow p r = Inr v \<longleftrightarrow> r = Inr v"
  by (cases r) (simp_all add: rethrow_def)

lemma rethrow_Inl [simp]: "rethrow p (Inl e) = Inl (Error (p @ message e))"
  by (simp add: rethrow_def)

lemma verify_cases:
  "verify cr sig msg pk =
     (if length (base64_decode sig) \<noteq> 64
      then Inl (Error ''Failed to verify signature: bad signature size'')
      else if length (base64_decode pk) \<noteq> 32
      then Inl (Error ''Failed to verify signature: bad public key size'')
      else Inr (crypto_sign_open cr (utf8 msg) (base64_decode sig) (base64_decode pk)))"
  by (simp add: verify_def nacl_sign_detached_verify_def)

text \<open>
  C2, as the code has it. \<^verbatim>\<open>verify\<close> computes its result from its three arguments
  alone. It returns a boolean, the verdict of the Ed25519 check, exactly when the
  signature decodes to 64 bytes and the public key to 32 bytes. For every other input
  it does not return \<^verbatim>\<open>false\<close>: tweetnacl throws on the wrong length, and the
  \<^verbatim>\<open>catch\<close> block of \<^verbatim>\<open>verify\<close> throws again, with the message prefixed by
  \<^verbatim>\<open>Failed to verify signature: \<close>.
\<close>

theorem verify_returns_or_throws:
  "(\<exists>b. verify cr sig msg pk = Inr b) =
     (length (base64_decode sig) = 64 \<and> length (base64_decode pk) = 32) \<and>
   (\<exists>e. verify cr sig msg pk = Inl e) =
     (\<not> (length (base64_decode sig) = 64 \<and> length (base64_decode pk) = 32)) \<and>
   verify cr sig msg pk =
     (if length (base64_decode sig) \<noteq> 64
      then Inl (Error ''Failed to verify signature: bad signature size'')
      else if length (base64_decode pk) \<noteq> 32
      then Inl (Error ''Failed to verify signature: bad public key size'')
      else Inr (crypto_sign_open cr (utf8 msg) (base64_decode sig) (base64_decode pk)))"
  by (simp add: verify_cases)

text \<open>
  C2 as stated fails: the signature \<^verbatim>\<open>AAAA\<close> is base64 for three bytes, and
  \<^verbatim>\<open>verify\<close> throws on it instead of returning \<^verbatim>\<open>false\<close>.
\<close>

theorem verify_malformed_throws:
  "verify demo_crypto ''AAAA'' ''abc'' demo_key_A =
     Inl (Error ''Failed to verify signature: bad signature size'')"
  by (simp add: verify_cases) code_simp

text \<open>
  C10. \<^verbatim>\<open>validateKeyPair\<close> returns a boolean for every pair of keys and never throws:
  whatever \<^verbatim>\<open>sign\<close> or \<^verbatim>\<open>verify\<close> throw is caught and becomes \<^verbatim>\<open>false\<close>. The
  boolean is \<^verbatim>\<open>true\<close> exactly when signing the test message with the private key
  succeeds and the signature verifies under the public key.
\<close>

theorem validateKeyPair_total:
  "\<exists>b. validateKeyPair cr now publicKey privateKey = Inr b \<and>
       b = (\<exists>s. sign cr now ''test-message-for-validation'' privateKey = Inr s \<and>
                 verify cr (sd_signature s) ''test-message-for-validation'' publicKey = Inr True)"
  by (auto simp: validateKeyPair_def Let_def split: sum.splits)

section \<open>Properties of MultiSignatureService\<close>

lemma addSignature_completed:
  "status s = ''completed'' \<Longrightarrow>
   addSignature cr now uuid s r k i = Inl (Error ''Failed to add signature: Multi-signature session is already completed'')"
  by (simp add: addSignature_def)

lemma addSignature_expired:
  "status s \<noteq> ''completed'' \<Longrightarrow> expiresAt s < now \<Longrightarrow>
   addSignature cr now uuid s r k i = Inl (Error ''Failed to add signature: Multi-signature session has expired'')"
  by (simp add: addSignature_def)

lemma addSignature_duplicate:
  "status s \<noteq> ''completed'' \<Longrightarrow> \<not> expiresAt s < now \<Longrightarrow>
   find (\<lambda>q. rs_role q = r) (requiredSigners s) \<noteq> None \<Longrightarrow>
   find (\<lambda>g. sg_role (sig_signer g) = r) (signatures s) \<noteq> None \<Longrightarrow>
   addSignature cr now uuid s r k i =
     Inl (Error (''Failed to add signature: Signer with role '' @ [CHR 0x27] @ r @ [CHR 0x27] @ '' has already signed this document''))"
  by (auto simp: addSignature_def split: option.splits)

lemma addSignature_not_required:
  "status s \<noteq> ''completed'' \<Longrightarrow> \<not> expiresAt s < now \<Longrightarrow>
   find (\<lambda>q. rs_role q = r) (requiredSigners s) = None \<Longrightarrow>
   addSignature cr now uuid s r k i =
     Inl (Error (''Failed to add signature: Signer role '' @ [CHR 0x27] @ r @ [CHR 0x27] @ '' is not required for this document''))"
  by (auto simp: addSignature_def split: option.splits)

lemma addSignature_InrD:
  assumes "addSignature cr now uuid s r k i = Inr s'"
  shows "status s \<noteq> ''completed'' \<and> \<not> expiresAt s < now \<and>
         find (\<lambda>q. rs_role q = r) (requiredSigners s) \<noteq> None \<and>
         find (\<lambda>g. sg_role (sig_signer g) = r) (signatures s) = None \<and>
         (\<exists>sg pk. sign cr now (documentHash s) k = Inr sg \<and> getPublicKeyFromPrivate k = Inr pk \<and>
            verify cr (sd_signature sg) (documentHash s) pk = Inr True \<and>
            s' = accept_signature now uuid s r i (sd_signature sg) pk)"
  using assms
  by (auto simp: addSignature_def split: option.splits sum.splits if_splits)

lemma accept_signature_simps:
  "signatures (accept_signature now uuid s r i sg pk) =
     signatures s @ [\<lparr>signatureId = uuid, signature = sg,
             sig_signer = \<lparr>sg_info = i, sg_role = r, sg_publicKey = pk\<rparr>,
             signedAt = now, sig_documentHash = documentHash s, sig_valid = True\<rparr>]"
  "threshold (accept_signature now uuid s r i sg pk) = threshold s"
  "status (accept_signature now uuid s r i sg pk) =
     (if threshold s \<le> int (length (signatures s)) + 1 then ''completed'' else status s)"
  "completedAt (accept_signature now uuid s r i sg pk) =
     (if threshold s \<le> int (length (signatures s)) + 1 then Some now else completedAt s)"
  "expiresAt (accept_signature now uuid s r i sg pk) = expiresAt s"
  "documentHash (accept_signature now uuid s r i sg pk) = documentHash s"
  by (simp_all add: accept_signature_def Let_def)

lemma sign_route_cases:
  "(\<not> accepted cr s a \<and> sign_route cr s a = s) \<or>
   (accepted cr s a \<and> status s \<noteq> ''completed'' \<and>
     (\<exists>sg pk. sign_route cr s a = accept_signature (at_now a) (at_uuid a) s (at_role a) (at_signerInfo a) sg pk))"
proof (cases "addSignature cr (at_now a) (at_uuid a) s (at_role a) (at_privateKey a) (at_signerInfo a)")
  case (Inl e)
  then show ?thesis by (simp add: accepted_def sign_route_def)
next
  case (Inr s')
  from addSignature_InrD[OF Inr] Inr show ?thesis
    by (auto simp: accepted_def sign_route_def)
qed

lemma session_inv_step:
  assumes "session_inv t s"
  shows "session_inv t (sign_route cr s a) \<and>
         length (signatures (sign_route cr s a)) = length (signatures s) + (if accepted cr s a then 1 else 0)"
  using sign_route_cases[of cr s a] assms
  by (auto simp: session_inv_def accept_signature_simps split: if_splits)

lemma session_inv_run:
  assumes "session_inv t s"
  shows "session_inv t (sign_routes cr s as) \<and>
         length (signatures (sign_routes cr s as)) = length (signatures s) + accepted_count cr s as"
  using assms
proof (induction as arbitrary: s)
  case Nil
  then show ?case by (simp add: sign_routes_def)
next
  case (Cons a as)
  from session_inv_step[OF Cons.prems, of cr a]
  have 1: "session_inv t (sign_route cr s a)"
    and 2: "length (signatures (sign_route cr s a)) = length (signatures s) + (if accepted cr s a then 1 else 0)"
    by simp_all
  from Cons.IH[OF 1] 2 show ?case
    by (simp add: sign_routes_def)
qed

lemma completed_not_accepted: "status s = ''completed'' \<Longrightarrow> \<not> accepted cr s a"
  by (simp add: accepted_def addSignature_completed)

lemma completed_run: "status s = ''completed'' \<Longrightarrow> sign_routes cr s as = s"
proof (induction as)
  case Nil
  then show ?case by (simp add: sign_routes_def)
next
  case (Cons a as)
  then show ?case by (simp add: sign_routes_def sign_route_def addSignature_completed)
qed

lemma JSON_stringify_truthy: "truthy v \<Longrightarrow> JSON_stringify v \<noteq> None"
  by (cases v) simp_all

lemma document_hash_Inr: "document_hash cr d = Inr (sha256_hex cr (the (JSON_stringify (signable d))))"
proof -
  have "JSON_stringify (signable d) \<noteq> None"
    by (simp add: signable_def or_else_def JSON_stringify_truthy)
  then show ?thesis by (auto simp: document_hash_def hashDocument_def)
qed

lemma validate_valid:
  "cfg_valid (validateMultiSigConfig signers (ThNumber t)) \<Longrightarrow> 2 \<le> t \<and> t \<le> int (length signers)"
  by (auto simp: validateMultiSigConfig_def Let_def MIN_SIGNERS_def less_than_def greater_than_def
        ToNumber_def split: if_splits)

lemma initialize_inv:
  assumes "initializeMultiSigSession cr now u1 u2 doc signers thr = Inr s0" and "0 < threshold s0"
  shows "session_inv (threshold s0) s0 \<and> signatures s0 = []"
  using assms
  by (auto simp: initializeMultiSigSession_def session_inv_def split: sum.splits)

lemma prepare_signing_initialize:
  assumes "prepare_signing cr now u1 u2 doc signers (ThNumber t) = Prepared s0"
  shows "initializeMultiSigSession cr now u1 u2 doc signers (Some t) = Inr s0 \<and> threshold s0 = t \<and> 2 \<le> t"
proof -
  from assms have v: "cfg_valid (validateMultiSigConfig signers (ThNumber t))"
    by (auto simp: prepare_signing_def Let_def split: if_splits)
  from validate_valid[OF v] have t: "2 \<le> t" by simp
  from assms v have i: "initializeMultiSigSession cr now u1 u2 doc signers (Some t) = Inr s0"
    by (auto simp: prepare_signing_def supplied_def Let_def split: sum.splits)
  with t show ?thesis
    by (auto simp: initializeMultiSigSession_def split: sum.splits)
qed

lemma demo_prepared:
  "prepare_signing demo_crypto 1000 ''session-1'' ''unused'' demo_document demo_signers (ThNumber 2) = Prepared demo_session"
  by code_simp

lemma demo_initialized:
  "initializeMultiSigSession demo_crypto 1000 ''session-1'' ''unused'' demo_document demo_signers (Some 2)
     = Inr demo_session"
  using prepare_signing_initialize[OF demo_prepared] by simp

lemma demo_first:
  "addSignature demo_crypto 2000 ''signature-1'' demo_session ''dosen'' demo_key_A [(''name'', JStr ''Dosen Pembimbing'')]
     = Inr demo_session_1"
  by code_simp

lemma demo_second:
  "addSignature demo_crypto 3000 ''signature-2'' demo_session_1 ''kaprodi'' demo_key_B [(''name'', JStr ''Ketua Prodi'')]
     = Inr demo_session_2"
  by code_simp

lemma demo_session_1_simps:
  "status demo_session_1 = ''pending''" "length (signatures demo_session_1) = 1"
  "map (\<lambda>g. sg_role (sig_signer g)) (signatures demo_session_1) = [''dosen'']"
  by (simp_all add: demo_session_1_def accept_signature_simps demo_session_def)

lemma demo_session_2_simps:
  "status demo_session_2 = ''completed''" "length (signatures demo_session_2) = 2"
  "map (\<lambda>g. sg_role (sig_signer g)) (signatures demo_session_2) = [''dosen'', ''kaprodi'']"
  "completedAt demo_session_2 = Some 3000"
  by (simp_all add: demo_session_2_def demo_session_1_def accept_signature_simps demo_session_def)

lemma demo_run:
  "sign_route demo_crypto demo_session demo_attempt_dosen = demo_session_1"
  "sign_route demo_crypto demo_session_1 demo_attempt_kaprodi = demo_session_2"
  "sign_route demo_crypto demo_session_2 demo_attempt_dekan = demo_session_2"
  "accepted demo_crypto demo_session demo_attempt_dosen"
  "accepted demo_crypto demo_session_1 demo_attempt_kaprodi"
  "\<not> accepted demo_crypto demo_session_2 demo_attempt_dekan"
  by (simp_all add: sign_route_def accepted_def demo_attempt_dosen_def demo_attempt_kaprodi_def demo_attempt_dekan_def
        demo_first demo_second addSignature_completed demo_session_2_simps)

text \<open>
  C1. Take a session that \<^verbatim>\<open>initializeMultiSigSession\<close> has created with a positive
  threshold (every session the route prepares has one: the threshold of the request when
  it gives one, which is then at least 2, and otherwise the default, which is 1 for a
  single signer and 2 for more), and any list of signing requests sent to it one after
  the other. The number of stored signatures is the number
  of accepted requests. The status is \<^verbatim>\<open>completed\<close> exactly when that number has
  reached the threshold, and \<^verbatim>\<open>pending\<close> exactly when it has not;
  \<^verbatim>\<open>completedAt\<close> is set exactly when the status is \<^verbatim>\<open>completed\<close>. The number
  never exceeds the threshold: once the session is completed no request is accepted and
  no further request changes the session, so the status never reverts. With threshold 2
  this is: \<^verbatim>\<open>pending\<close> after the first accepted signature, \<^verbatim>\<open>completed\<close> with
  \<^verbatim>\<open>completedAt\<close> set after the second, and never a third.
\<close>

theorem threshold_completion:
  assumes "initializeMultiSigSession cr now u1 u2 doc signers thr = Inr s0" and "0 < threshold s0"
  shows "length (signatures (sign_routes cr s0 as)) = accepted_count cr s0 as \<and>
         threshold (sign_routes cr s0 as) = threshold s0 \<and>
         (status (sign_routes cr s0 as) = ''completed'') = (threshold s0 \<le> int (accepted_count cr s0 as)) \<and>
         (status (sign_routes cr s0 as) = ''pending'') = (int (accepted_count cr s0 as) < threshold s0) \<and>
         (completedAt (sign_routes cr s0 as) \<noteq> None) = (threshold s0 \<le> int (accepted_count cr s0 as)) \<and>
         int (accepted_count cr s0 as) \<le> threshold s0 \<and>
         (status (sign_routes cr s0 as) = ''completed'' \<longrightarrow>
            (\<forall>a. \<not> accepted cr (sign_routes cr s0 as) a) \<and>
            (\<forall>bs. sign_routes cr (sign_routes cr s0 as) bs = sign_routes cr s0 as))"
proof -
  from initialize_inv[OF assms] have inv: "session_inv (threshold s0) s0" and e: "signatures s0 = []"
    by simp_all
  from session_inv_run[OF inv, of cr as] e
  have 1: "session_inv (threshold s0) (sign_routes cr s0 as)"
    and 2: "length (signatures (sign_routes cr s0 as)) = accepted_count cr s0 as" by simp_all
  from 1 2 show ?thesis
    by (auto simp: session_inv_def completed_not_accepted completed_run)
qed

theorem threshold_completion_witness:
  "initializeMultiSigSession demo_crypto 1000 ''session-1'' ''unused'' demo_document demo_signers (Some 2)
     = Inr demo_session \<and>
   threshold demo_session = 2 \<and> length (requiredSigners demo_session) = 3 \<and>
   accepted_count demo_crypto demo_session [demo_attempt_dosen] = 1 \<and>
   status (sign_routes demo_crypto demo_session [demo_attempt_dosen]) = ''pending'' \<and>
   accepted_count demo_crypto demo_session [demo_attempt_dosen, demo_attempt_kaprodi] = 2 \<and>
   status (sign_routes demo_crypto demo_session [demo_attempt_dosen, demo_attempt_kaprodi]) = ''completed'' \<and>
   completedAt (sign_routes demo_crypto demo_session [demo_attempt_dosen, demo_attempt_kaprodi]) \<noteq> None \<and>
   accepted_count demo_crypto demo_session [demo_attempt_dosen, demo_attempt_kaprodi, demo_attempt_dekan] = 2"
proof -
  have t: "threshold demo_session = 2" "length (requiredSigners demo_session) = 3"
    by (simp_all add: demo_session_def)
  then have p: "0 < threshold demo_session" by simp
  from threshold_completion [OF demo_initialized p, of "[demo_attempt_dosen]"]
    threshold_completion [OF demo_initialized p, of "[demo_attempt_dosen, demo_attempt_kaprodi]"]
  show ?thesis
    by (simp add: demo_initialized demo_run t)
qed

lemma addSignature_open:
  assumes "status s \<noteq> ''completed''" and "\<not> expiresAt s < now"
  shows "addSignature cr now uuid s r k i \<noteq>
           Inl (Error ''Failed to add signature: Multi-signature session is already completed'')"
    and "addSignature cr now uuid s r k i \<noteq>
           Inl (Error ''Failed to add signature: Multi-signature session has expired'')"
  using assms
  by (auto simp: addSignature_def sign_def getPublicKeyFromPrivate_def verify_def hashDocument_def
        rethrow_def split: option.splits sum.splits)

lemma accept_signature_status:
  "accept_signature now uuid (s\<lparr>status := st\<rparr>) r i sg pk =
     (if threshold s \<le> int (length (signatures s)) + 1 then accept_signature now uuid s r i sg pk
      else (accept_signature now uuid s r i sg pk)\<lparr>status := st\<rparr>)"
  by (simp add: accept_signature_def Let_def)

lemma addSignature_status:
  assumes "status s \<noteq> ''completed''" and "st \<noteq> ''completed''"
  shows "addSignature cr now uuid (s\<lparr>status := st\<rparr>) r k i =
           map_sum id (\<lambda>s'. if status s' = ''completed'' then s' else s'\<lparr>status := st\<rparr>)
             (addSignature cr now uuid s r k i)"
  using assms
  by (auto simp: addSignature_def rethrow_def accept_signature_status accept_signature_simps
        split: option.splits sum.splits)

lemma rfc8032_public: "getPublicKeyFromPrivate rfc8032_secret_key = Inr rfc8032_public_key"
  by code_simp

lemma demo_cancelled_simps:
  "status demo_cancelled = ''cancelled''"
  "expiresAt demo_cancelled = 604801000"
  "threshold demo_cancelled = 2"
  "signatures demo_cancelled = []"
  "find (\<lambda>q. rs_role q = ''dosen'') (requiredSigners demo_cancelled) \<noteq> None"
  by (simp_all add: demo_cancelled_def demo_session_def)

lemma demo_genuine_first:
  "case addSignature demo_crypto 2000 ''signature-1'' demo_session ''dosen'' rfc8032_secret_key
          [(''name'', JStr ''Dosen Pembimbing'')] of
     Inl e \<Rightarrow> False
   | Inr s' \<Rightarrow> status s' = ''pending'' \<and> length (signatures s') = 1"
  by code_simp

text \<open>
  C4, as the code has it. \<^verbatim>\<open>addSignature\<close> rejects the call, and the stored session
  stays as it is, when the status is \<^verbatim>\<open>completed\<close> or when the call comes after
  \<^verbatim>\<open>expiresAt\<close>. In every other case the call is not rejected as one to a closed
  session. No status other than \<^verbatim>\<open>completed\<close> is looked at: with any such status in
  place of another the outcome is the same, the same error or the same new session, which
  keeps the status it was given unless the signature completes it.
\<close>

theorem closed_session_rejects:
  "(status s = ''completed'' \<or> expiresAt s < now \<longrightarrow>
      addSignature cr now uuid s r k i =
        Inl (Error (''Failed to add signature: '' @
          (if status s = ''completed'' then ''Multi-signature session is already completed''
           else ''Multi-signature session has expired''))) \<and>
      sign_route cr s \<lparr>at_now = now, at_uuid = uuid, at_role = r, at_privateKey = k, at_signerInfo = i\<rparr> = s) \<and>
   (status s \<noteq> ''completed'' \<and> \<not> expiresAt s < now \<longrightarrow>
      addSignature cr now uuid s r k i \<noteq>
        Inl (Error ''Failed to add signature: Multi-signature session is already completed'') \<and>
      addSignature cr now uuid s r k i \<noteq>
        Inl (Error ''Failed to add signature: Multi-signature session has expired'')) \<and>
   (status s \<noteq> ''completed'' \<and> st \<noteq> ''completed'' \<longrightarrow>
      addSignature cr now uuid (s\<lparr>status := st\<rparr>) r k i =
        map_sum id (\<lambda>s'. if status s' = ''completed'' then s' else s'\<lparr>status := st\<rparr>)
          (addSignature cr now uuid s r k i))"
proof (intro conjI impI)
  assume "status s = ''completed'' \<or> expiresAt s < now"
  then show "addSignature cr now uuid s r k i =
      Inl (Error (''Failed to add signature: '' @
        (if status s = ''completed'' then ''Multi-signature session is already completed''
         else ''Multi-signature session has expired'')))"
    and "sign_route cr s \<lparr>at_now = now, at_uuid = uuid, at_role = r, at_privateKey = k, at_signerInfo = i\<rparr> = s"
    by (cases "status s = ''completed''"; simp add: sign_route_def addSignature_completed addSignature_expired)+
next
  assume "status s \<noteq> ''completed'' \<and> \<not> expiresAt s < now"
  then show "addSignature cr now uuid s r k i \<noteq>
      Inl (Error ''Failed to add signature: Multi-signature session is already completed'')"
    and "addSignature cr now uuid s r k i \<noteq>
      Inl (Error ''Failed to add signature: Multi-signature session has expired'')"
    using addSignature_open[of s now cr uuid r k i] by simp_all
next
  assume "status s \<noteq> ''completed'' \<and> st \<noteq> ''completed''"
  then show "addSignature cr now uuid (s\<lparr>status := st\<rparr>) r k i =
      map_sum id (\<lambda>s'. if status s' = ''completed'' then s' else s'\<lparr>status := st\<rparr>)
        (addSignature cr now uuid s r k i)"
    by (simp add: addSignature_status)
qed

theorem closed_session_rejects_witness:
  "status demo_session_2 = ''completed'' \<and>
   addSignature demo_crypto 4000 ''signature-3'' demo_session_2 ''dekan'' demo_key_B [(''name'', JStr ''Dekan'')] =
     Inl (Error ''Failed to add signature: Multi-signature session is already completed'') \<and>
   sign_route demo_crypto demo_session_2 demo_attempt_dekan = demo_session_2 \<and>
   status demo_session = ''pending'' \<and> \<not> expiresAt demo_session < 2000 \<and>
   (\<exists>s'. addSignature demo_crypto 2000 ''signature-1'' demo_session ''dosen'' rfc8032_secret_key
            [(''name'', JStr ''Dosen Pembimbing'')] = Inr s' \<and>
         status s' = ''pending'' \<and>
         addSignature demo_crypto 2000 ''signature-1'' demo_cancelled ''dosen'' rfc8032_secret_key
            [(''name'', JStr ''Dosen Pembimbing'')] = Inr (s'\<lparr>status := ''cancelled''\<rparr>))"
proof -
  have p: "status demo_session = ''pending''" "\<not> expiresAt demo_session < 2000"
    by (simp_all add: demo_session_def)
  from demo_genuine_first obtain s' where
    s': "addSignature demo_crypto 2000 ''signature-1'' demo_session ''dosen'' rfc8032_secret_key
           [(''name'', JStr ''Dosen Pembimbing'')] = Inr s'" "status s' = ''pending''"
    by (auto split: sum.splits)
  from closed_session_rejects [of demo_session_2 4000 demo_crypto "''signature-3''" "''dekan''" demo_key_B
      "[(''name'', JStr ''Dekan'')]" "''cancelled''"]
    closed_session_rejects [of demo_session 2000 demo_crypto "''signature-1''" "''dosen''" rfc8032_secret_key
      "[(''name'', JStr ''Dosen Pembimbing'')]" "''cancelled''"]
  show ?thesis
    by (simp add: demo_session_2_simps demo_attempt_dekan_def p s' demo_cancelled_def)
qed

text \<open>
  C4 as stated fails for the status \<^verbatim>\<open>cancelled\<close>. Take the demonstration session
  with that status, not past its expiry, and a call for the role \<^verbatim>\<open>dosen\<close> with the
  genuine key pair. Whatever the primitives are, the call is not rejected as one to a
  closed session; it is accepted, and a signature stored, exactly when the signature
  made with the secret key verifies under its public key, as an Ed25519 signature does.
  (The routes never write this status: cancelling deletes the session from the store.)
\<close>

theorem cancelled_session_accepts:
  "status demo_cancelled = ''cancelled'' \<and> \<not> expiresAt demo_cancelled < 2000 \<and>
   (\<forall>cr. addSignature cr 2000 ''signature-1'' demo_cancelled ''dosen'' rfc8032_secret_key
            [(''name'', JStr ''Dosen Pembimbing'')] \<noteq>
          Inl (Error ''Failed to add signature: Multi-signature session is already completed'')) \<and>
   (\<forall>cr. addSignature cr 2000 ''signature-1'' demo_cancelled ''dosen'' rfc8032_secret_key
            [(''name'', JStr ''Dosen Pembimbing'')] \<noteq>
          Inl (Error ''Failed to add signature: Multi-signature session has expired'')) \<and>
   (\<forall>cr. (\<exists>s'. addSignature cr 2000 ''signature-1'' demo_cancelled ''dosen'' rfc8032_secret_key
                  [(''name'', JStr ''Dosen Pembimbing'')] = Inr s' \<and>
                status s' = ''cancelled'' \<and>
                map (\<lambda>g. sg_role (sig_signer g)) (signatures s') = [''dosen'']) =
          (\<exists>sd. sign cr 2000 (documentHash demo_cancelled) rfc8032_secret_key = Inr sd \<and>
                verify cr (sd_signature sd) (documentHash demo_cancelled) rfc8032_public_key = Inr True))"
proof -
  have o: "status demo_cancelled \<noteq> ''completed''" "\<not> expiresAt demo_cancelled < 2000"
    by (simp_all add: demo_cancelled_simps)
  have "(\<exists>s'. addSignature cr 2000 ''signature-1'' demo_cancelled ''dosen'' rfc8032_secret_key
                  [(''name'', JStr ''Dosen Pembimbing'')] = Inr s' \<and>
                status s' = ''cancelled'' \<and>
                map (\<lambda>g. sg_role (sig_signer g)) (signatures s') = [''dosen'']) =
          (\<exists>sd. sign cr 2000 (documentHash demo_cancelled) rfc8032_secret_key = Inr sd \<and>
                verify cr (sd_signature sd) (documentHash demo_cancelled) rfc8032_public_key = Inr True)" for cr
    using demo_cancelled_simps
    by (auto simp: addSignature_def rfc8032_public accept_signature_simps split: option.splits sum.splits)
  with addSignature_open[OF o] demo_cancelled_simps show ?thesis by simp
qed

text \<open>
  C3, as the code has it. A call of \<^verbatim>\<open>addSignature\<close> for a role that has a stored
  signature always throws, and the stored session stays as it is. The error is the one
  for a duplicate signature when the session is not completed, the call is not past the
  expiry and the role is among the required signers; on a completed session it is the
  error for a completed session, and past the expiry the error for an expired one,
  because these are checked first.
\<close>

theorem duplicate_role_rejected:
  assumes "find (\<lambda>g. sg_role (sig_signer g) = r) (signatures s) \<noteq> None"
  shows "(\<exists>e. addSignature cr now uuid s r k i = Inl e) \<and>
         sign_route cr s \<lparr>at_now = now, at_uuid = uuid, at_role = r, at_privateKey = k, at_signerInfo = i\<rparr> = s \<and>
         (status s \<noteq> ''completed'' \<and> \<not> expiresAt s < now \<and>
          find (\<lambda>q. rs_role q = r) (requiredSigners s) \<noteq> None \<longrightarrow>
            addSignature cr now uuid s r k i =
              Inl (Error (''Failed to add signature: Signer with role '' @ [CHR 0x27] @ r @ [CHR 0x27] @
                          '' has already signed this document''))) \<and>
         (status s = ''completed'' \<longrightarrow>
            addSignature cr now uuid s r k i =
              Inl (Error ''Failed to add signature: Multi-signature session is already completed'')) \<and>
         (status s \<noteq> ''completed'' \<and> expiresAt s < now \<longrightarrow>
            addSignature cr now uuid s r k i =
              Inl (Error ''Failed to add signature: Multi-signature session has expired''))"
proof -
  have 1: "\<exists>e. addSignature cr now uuid s r k i = Inl e"
  proof (cases "addSignature cr now uuid s r k i")
    case (Inl e) then show ?thesis by simp
  next
    case (Inr s')
    from addSignature_InrD[OF Inr] assms show ?thesis by simp
  qed
  then show ?thesis
    using assms by (auto simp: sign_route_def addSignature_completed addSignature_expired addSignature_duplicate)
qed

theorem duplicate_role_rejected_witness:
  "find (\<lambda>g. sg_role (sig_signer g) = ''dosen'') (signatures demo_session_1) \<noteq> None \<and>
   addSignature demo_crypto 2500 ''signature-x'' demo_session_1 ''dosen'' demo_key_A [] =
     Inl (Error ''Failed to add signature: Signer with role 'dosen' has already signed this document'') \<and>
   sign_route demo_crypto demo_session_1
     \<lparr>at_now = 2500, at_uuid = ''signature-x'', at_role = ''dosen'', at_privateKey = demo_key_A, at_signerInfo = []\<rparr> = demo_session_1"
  using duplicate_role_rejected [of "''dosen''" demo_session_1 demo_crypto 2500 "''signature-x''" demo_key_A "[]"]
  by (simp add: demo_session_1_def accept_signature_simps accept_signature_def demo_session_def)

text \<open>
  C3 as stated fails on a completed session: dosen has signed, the threshold is
  reached, and a second call for dosen fails as a call on a completed session, not as a
  duplicate.
\<close>

theorem duplicate_on_completed_session:
  "find (\<lambda>g. sg_role (sig_signer g) = ''dosen'') (signatures demo_session_2) \<noteq> None \<and>
   addSignature demo_crypto 3500 ''signature-x'' demo_session_2 ''dosen'' demo_key_A [] =
     Inl (Error ''Failed to add signature: Multi-signature session is already completed'')"
  by (simp add: addSignature_completed demo_session_2_simps)
     (simp add: demo_session_2_def demo_session_1_def accept_signature_simps demo_session_def)




lemma indexOf_le: "i < length xs \<Longrightarrow> xs ! i = x \<Longrightarrow> indexOf xs x \<le> int i"
proof (induction xs arbitrary: i)
  case Nil
  then show ?case by simp
next
  case (Cons y ys)
  show ?case
  proof (cases i)
    case 0
    with Cons.prems show ?thesis by simp
  next
    case (Suc j)
    with Cons.prems have "j < length ys" "ys ! j = x" by simp_all
    from Cons.IH[OF this] Suc show ?thesis by (simp add: Let_def)
  qed
qed







lemma verify_stored_valid:
  "sr_valid (verify_stored cr s g) =
     (verify cr (signature g) (documentHash s) (sg_publicKey (sig_signer g)) = Inr True)"
  "sr_signatureId (verify_stored cr s g) = signatureId g"
  "sr_signer (verify_stored cr s g) = sig_signer g"
  by (auto simp: verify_stored_def split: sum.splits)

lemma filter_verify_stored:
  "length (filter sr_valid (map (verify_stored cr s) gs)) =
   length (filter (\<lambda>g. verify cr (signature g) (documentHash s) (sg_publicKey (sig_signer g)) = Inr True) gs)"
  by (induction gs) (simp_all add: verify_stored_valid)

text \<open>
  C5. \<^verbatim>\<open>verifyMultiSignature\<close> always returns a result. It hashes the supplied
  document first. When the hash differs from \<^verbatim>\<open>session.documentHash\<close> the result is
  invalid, says that the document has been modified after signing, and its list of
  signature results is empty. Otherwise the list has one result per stored signature,
  in order, and the result of a signature is valid exactly when \<^verbatim>\<open>verify\<close> returns
  \<^verbatim>\<open>true\<close> for that signature, whatever happens with the others (a \<^verbatim>\<open>verify\<close>
  that throws gives an invalid result for that signature only). The overall result is
  valid exactly when the number of valid results is at least the threshold.
\<close>

theorem verifyMultiSignature_result:
  "\<exists>h r. document_hash cr doc = Inr h \<and> verifyMultiSignature cr now s doc = Inr r \<and>
     v_documentHashMatch r = (h = documentHash s) \<and>
     (h \<noteq> documentHash s \<longrightarrow>
        \<not> v_valid r \<and> v_signatureResults r = [] \<and>
        v_reason r = ''Document has been modified after signing'') \<and>
     (h = documentHash s \<longrightarrow>
        length (v_signatureResults r) = length (signatures s) \<and>
        (\<forall>n < length (signatures s).
           sr_signatureId (v_signatureResults r ! n) = signatureId (signatures s ! n) \<and>
           sr_signer (v_signatureResults r ! n) = sig_signer (signatures s ! n) \<and>
           sr_valid (v_signatureResults r ! n) =
             (verify cr (signature (signatures s ! n)) (documentHash s)
                (sg_publicKey (sig_signer (signatures s ! n))) = Inr True)) \<and>
        v_validSignatures r = Some (length (filter sr_valid (v_signatureResults r))) \<and>
        v_valid r = (threshold s \<le> int (length (filter sr_valid (v_signatureResults r)))))"
proof -
  obtain h where h: "document_hash cr doc = Inr h"
    using document_hash_Inr by blast
  show ?thesis
  proof (cases "h = documentHash s")
    case True
    with h show ?thesis
      by (simp add: verifyMultiSignature_def Let_def verify_stored_valid)
  next
    case False
    with h show ?thesis
      by (simp add: verifyMultiSignature_def)
  qed
qed

lemma demo_session_3_simps:
  "documentHash demo_session_3 = quote ''Isi dokumen''"
  "threshold demo_session_3 = 2"
  "signatures demo_session_3 =
     [\<lparr>signatureId = ''signature-1'',
       signature = ''AAAAAAAAAAAAAAAAAAAAAAAAAAAAAAAAAAAAAAAAAAAiSXNpIGRva3VtZW4iAAAAAAAAAAAAAAAAAAAAAAAAAA=='',
       sig_signer = \<lparr>sg_info = [(''name'', JStr ''Dosen Pembimbing'')], sg_role = ''dosen'',
                     sg_publicKey = ''AAAAAAAAAAAAAAAAAAAAAAAAAAAAAAAAAAAAAAAAAAA=''\<rparr>,
       signedAt = 2000, sig_documentHash = quote ''Isi dokumen'', sig_valid = True\<rparr>,
      \<lparr>signatureId = ''signature-3'', signature = ''AAAA'',
       sig_signer = \<lparr>sg_info = [], sg_role = ''dekan'', sg_publicKey = ''AAAA''\<rparr>,
       signedAt = 3500, sig_documentHash = quote ''Isi dokumen'', sig_valid = True\<rparr>,
      \<lparr>signatureId = ''signature-2'',
       signature = ''QQQQQQQQQQQQQQQQQQQQQQQQQQQQQQQQQQQQQQQQQQQiSXNpIGRva3VtZW4iAAAAAAAAAAAAAAAAAAAAAAAAAA=='',
       sig_signer = \<lparr>sg_info = [(''name'', JStr ''Ketua Prodi'')], sg_role = ''kaprodi'',
                     sg_publicKey = ''QQQQQQQQQQQQQQQQQQQQQQQQQQQQQQQQQQQQQQQQQQQ=''\<rparr>,
       signedAt = 3000, sig_documentHash = quote ''Isi dokumen'', sig_valid = True\<rparr>]"
  by (simp_all add: demo_session_3_def demo_session_2_def demo_session_1_def accept_signature_simps
        demo_session_def)

lemma demo_document_hash:
  "document_hash demo_crypto demo_document = Inr (quote ''Isi dokumen'')"
  "document_hash demo_crypto demo_document_tampered = Inr (quote ''Isi dokumen lain'')"
  by code_simp+

lemma demo_verify_each:
  "verify demo_crypto
     ''AAAAAAAAAAAAAAAAAAAAAAAAAAAAAAAAAAAAAAAAAAAiSXNpIGRva3VtZW4iAAAAAAAAAAAAAAAAAAAAAAAAAA==''
     (quote ''Isi dokumen'') ''AAAAAAAAAAAAAAAAAAAAAAAAAAAAAAAAAAAAAAAAAAA='' = Inr True"
  "verify demo_crypto ''AAAA'' (quote ''Isi dokumen'') ''AAAA'' \<noteq> Inr True"
  "verify demo_crypto
     ''QQQQQQQQQQQQQQQQQQQQQQQQQQQQQQQQQQQQQQQQQQQiSXNpIGRva3VtZW4iAAAAAAAAAAAAAAAAAAAAAAAAAA==''
     (quote ''Isi dokumen'') ''QQQQQQQQQQQQQQQQQQQQQQQQQQQQQQQQQQQQQQQQQQQ='' = Inr True"
  by code_simp+

lemma quote_demo_neq: "quote ''Isi dokumen lain'' \<noteq> quote ''Isi dokumen''"
  by code_simp

theorem verifyMultiSignature_result_witness:
  "(\<exists>r. verifyMultiSignature demo_crypto 5000 demo_session_3 demo_document = Inr r \<and>
        map sr_valid (v_signatureResults r) = [True, False, True] \<and> v_valid r) \<and>
   (\<exists>r. verifyMultiSignature demo_crypto 5000 demo_session_3 demo_document_tampered = Inr r \<and>
        v_signatureResults r = [] \<and> \<not> v_valid r)"
proof
  from verifyMultiSignature_result [of demo_crypto demo_document 5000 demo_session_3]
  obtain r where r: "verifyMultiSignature demo_crypto 5000 demo_session_3 demo_document = Inr r"
    and len: "length (v_signatureResults r) = 3"
    and each: "\<forall>n<3. sr_valid (v_signatureResults r ! n) =
       (verify demo_crypto (signature (signatures demo_session_3 ! n)) (quote ''Isi dokumen'')
          (sg_publicKey (sig_signer (signatures demo_session_3 ! n))) = Inr True)"
    and v: "v_valid r = (2 \<le> int (length (filter sr_valid (v_signatureResults r))))"
    by (auto simp: demo_document_hash demo_session_3_simps)
  from len obtain a b c where abc: "v_signatureResults r = [a, b, c]"
    by (auto simp: length_Suc_conv numeral_3_eq_3)
  from each have "sr_valid (v_signatureResults r ! 0)" "\<not> sr_valid (v_signatureResults r ! 1)"
    "sr_valid (v_signatureResults r ! 2)"
    by (simp_all add: demo_session_3_simps demo_verify_each)
  with abc have "map sr_valid (v_signatureResults r) = [True, False, True]" by simp
  with r v abc show "\<exists>r. verifyMultiSignature demo_crypto 5000 demo_session_3 demo_document = Inr r \<and>
        map sr_valid (v_signatureResults r) = [True, False, True] \<and> v_valid r"
    by auto
next
  from verifyMultiSignature_result [of demo_crypto demo_document_tampered 5000 demo_session_3]
  show "\<exists>r. verifyMultiSignature demo_crypto 5000 demo_session_3 demo_document_tampered = Inr r \<and>
        v_signatureResults r = [] \<and> \<not> v_valid r"
    by (auto simp: demo_document_hash demo_session_3_simps quote_demo_neq)
qed


section \<open>Properties of the document hash\<close>









section \<open>Properties of QRCodeService\<close>

lemma distinct_keys_get: "distinct_keys (JObj obj) \<Longrightarrow> distinct_keys (get obj k)"
  by (auto simp: get_def list_all_iff split: option.splits dest!: map_of_SomeD)

lemma distinct_keys_read_prop: "distinct_keys v \<Longrightarrow> distinct_keys (read_prop v k)"
  by (cases v) (simp_all add: read_prop_def distinct_keys_get del: distinct_keys.simps(2))

lemma distinct_keys_or_else: "distinct_keys a \<Longrightarrow> distinct_keys b \<Longrightarrow> distinct_keys (or_else a b)"
  by (simp add: or_else_def)

lemma distinct_keys_payload:
  assumes "distinct_keys (JObj sd)" "distinct_keys (JObj md)"
  shows "distinct_keys (verificationPayload ts sd md)"
proof -
  have g: "\<And>k. distinct_keys (get sd k)" "\<And>k. distinct_keys (get md k)"
    using assms by (simp_all only: distinct_keys_get)
  show ?thesis
    unfolding verificationPayload_def
    by (simp add: g distinct_keys_read_prop distinct_keys_or_else)
qed

lemma distinct_keys_reference:
  assumes "distinct_keys (JObj md)"
  shows "distinct_keys (verificationReference uuid h sd md)"
  unfolding verificationReference_def
  using distinct_keys_get[OF assms, of "''id''"] by simp

lemma payload_type: "read_prop (norm (verificationPayload ts sd md)) ''type'' = JStr ''document_verification''"
  by (simp add: verificationPayload_def read_prop_def get_def)

lemma reference_norm:
  "norm (verificationReference uuid h sd md) =
     JObj ([(''type'', JStr ''verification_url''), (''verificationId'', JStr uuid),
            (''url'', JStr (''/api/verification/'' @ uuid))] @
           (if get md ''id'' = JUndefined then [] else [(''documentId'', norm (get md ''id''))]) @
           [(''quickVerify'', JObj
              [(''documentHash'', JStr (take 16 h)),
               (''signatureCount'',
                  JNum (case get sd ''signatures'' of JArr xs \<Rightarrow> int (length xs) | _ \<Rightarrow> 1))])])"
  by (simp add: verificationReference_def)

lemma norm_undefined: "(norm v = JUndefined) = (v = JUndefined)"
  by (cases v) simp_all

lemma parse_payload:
  assumes "distinct_keys (JObj sd)" "distinct_keys (JObj md)"
    and "JSON_stringify (verificationPayload ts sd md) = Some t"
  shows "parseQRData t =
           Inr [(''type'', JStr ''embedded_verification''), (''payload'', norm (verificationPayload ts sd md))]"
proof -
  from JSON_parse_stringify[OF distinct_keys_payload[OF assms(1,2)] assms(3)]
  have p: "JSON_parse t = Inr (norm (verificationPayload ts sd md))" .
  have n: "norm (verificationPayload ts sd md) \<noteq> JNull" by (simp add: verificationPayload_def)
  show ?thesis
    by (simp add: parseQRData_def p payload_type n)
qed

lemma parse_reference:
  assumes "distinct_keys (JObj md)"
    and "JSON_stringify (verificationReference uuid h sd md) = Some t"
  shows "parseQRData t =
           Inr [(''type'', JStr ''url_verification''),
                (''verificationId'', JStr uuid),
                (''url'', JStr (''/api/verification/'' @ uuid)),
                (''documentId'', norm (get md ''id'')),
                (''quickVerify'', JObj
                   [(''documentHash'', JStr (take 16 h)),
                    (''signatureCount'',
                       JNum (case get sd ''signatures'' of JArr xs \<Rightarrow> int (length xs) | _ \<Rightarrow> 1))])]"
proof -
  from JSON_parse_stringify[OF distinct_keys_reference[OF assms(1)] assms(2)]
  have p: "JSON_parse t = Inr (norm (verificationReference uuid h sd md))" .
  show ?thesis
    by (simp add: parseQRData_def p reference_norm read_prop_def get_def)
qed

lemma generateDocumentQR_cases:
  assumes "generateDocumentQR toDataURL now ts uuid store sd md = (store', Inr q)"
  shows "\<exists>t. JSON_stringify (verificationPayload ts sd md) = Some t \<and>
             payload q = verificationPayload ts sd md \<and> qr_size q = length t \<and>
             compressed q = (2000 < length t) \<and> toDataURL (qrData q) = Inr (qrImage q) \<and>
             (if 2000 < length t
              then \<exists>h. get sd ''documentHash'' = JStr h \<and>
                       JSON_stringify (verificationReference uuid h sd md) = Some (qrData q) \<and>
                       store' = storeVerificationData now store uuid (verificationPayload ts sd md)
              else qrData q = t \<and> store' = store)"
proof -
  obtain t where t: "JSON_stringify (verificationPayload ts sd md) = Some t"
    by (simp add: verificationPayload_def)
  show ?thesis
  proof (cases "2000 < length t")
    case True
    with assms t show ?thesis
      by (auto simp: generateDocumentQR_def split: json.splits sum.splits option.splits prod.splits if_splits)
  next
    case False
    with assms t show ?thesis
      by (auto simp: generateDocumentQR_def split: sum.splits)
  qed
qed

lemma utf8_length_ascii: "\<forall>c \<in> set s. (of_char c :: nat) < 128 \<Longrightarrow> length (utf8 s) = length s"
  by (induction s) (simp_all add: utf8_def utf8_char_def)

lemma quote_char_plain:
  "32 \<le> (of_char c :: nat) \<Longrightarrow> (of_char c :: nat) \<noteq> 34 \<Longrightarrow> (of_char c :: nat) \<noteq> 92 \<Longrightarrow> quote_char c = [c]"
  by (auto simp: quote_char_def Let_def)

lemma quote_unescaped:
  "\<forall>c \<in> set s. 32 \<le> (of_char c :: nat) \<and> (of_char c :: nat) \<noteq> 34 \<and> (of_char c :: nat) \<noteq> 92 \<Longrightarrow>
   quote s = CHR 0x22 # s @ [CHR 0x22]"
  by (induction s) (simp_all add: quote_def quote_char_plain)

lemma length_quote_plain: "list_all plain s \<Longrightarrow> length (quote s) = length s + 2"
  by (subst quote_unescaped) (auto simp: list_all_iff plain_def)

lemma length_utf8_Cons: "length (utf8 (c # s)) = length (utf8_char c) + length (utf8 s)"
  by (simp add: utf8_def)

lemma length_utf8_append: "length (utf8 (a @ b)) = length (utf8 a) + length (utf8 b)"
  by (simp add: utf8_def)

lemma length_utf8_quote_plain: "list_all plain s \<Longrightarrow> length (utf8 (quote s)) = length s + 2"
  by (subst quote_unescaped)
     (auto simp: list_all_iff plain_def length_utf8_Cons length_utf8_append utf8_char_def utf8_length_ascii)

lemma length_quote_replicate:
  assumes "32 \<le> (of_char c :: nat)" "(of_char c :: nat) \<noteq> 34" "(of_char c :: nat) \<noteq> 92"
  shows "length (quote (replicate n c)) = n + 2"
    and "length (utf8 (quote (replicate n c))) = n * length (utf8_char c) + 2"
proof -
  have q: "quote (replicate n c) = CHR 0x22 # replicate n c @ [CHR 0x22]"
    using assms by (intro quote_unescaped) simp
  show "length (quote (replicate n c)) = n + 2" by (simp add: q)
  have r: "length (utf8 (replicate n c)) = n * length (utf8_char c)"
    by (simp add: utf8_def map_replicate_const length_concat sum_list_replicate)
  have 1: "length (utf8_char (CHR 0x22)) = 1" by (simp add: utf8_char_def)
  have 2: "length (utf8 []) = 0" by (simp add: utf8_def)
  show "length (utf8 (quote (replicate n c))) = n * length (utf8_char c) + 2"
    by (simp add: q length_utf8_Cons length_utf8_append r 1 2)
qed

lemma demo_length_1:
  "map_option length (JSON_stringify (verificationPayload ''2024-01-03T00:00:00.000Z'' demo_single demo_metadata)) = Some 591"
  by (simp add: verificationPayload_def demo_single_def demo_metadata_def get_def or_else_def read_prop_def
        length_quote_plain plain_def)


lemma list_all_replicate: "list_all P (replicate n x) = (n = 0 \<or> P x)"
  by (auto simp: list_all_iff)

lemma length_utf8_literal:
  "length (utf8 []) = 0"
  "length (utf8_char (CHR 0x22)) = 1" "length (utf8_char (CHR '':'')) = 1" "length (utf8_char (CHR '','')) = 1"
  "length (utf8_char (CHR ''{'')) = 1" "length (utf8_char (CHR ''}'')) = 1"
  "length (utf8_char (CHR ''['')) = 1" "length (utf8_char (CHR '']'')) = 1"
  "length (utf8_char (CHR 0xE9)) = 2"
  by (simp_all add: utf8_def utf8_char_def)

lemma demo_length_2:
  "map_option (\<lambda>t. (length t, length (utf8 t)))
     (JSON_stringify (verificationPayload ''2024-01-03T00:00:00.000Z'' demo_single demo_metadata_accents))
     = Some (1385, 2185)"
  by (simp add: verificationPayload_def demo_single_def demo_metadata_accents_def get_def or_else_def
        read_prop_def length_quote_plain plain_def length_quote_replicate length_utf8_Cons
        length_utf8_append length_utf8_quote_plain length_utf8_literal)

lemma demo_length_3:
  "map_option length (JSON_stringify (verificationPayload ''2024-01-03T00:00:00.000Z'' demo_aggregate demo_metadata)) = Some 2311"
  by (simp add: verificationPayload_def demo_aggregate_def demo_aggregate_entry_def demo_metadata_def get_def
        or_else_def read_prop_def length_quote_plain plain_def list_all_replicate)

lemma demo_single_keys: "distinct_keys (JObj demo_single)"
  by (simp add: demo_single_def)

lemma demo_metadata_keys: "distinct_keys (JObj demo_metadata)"
  by (simp add: demo_metadata_def)

lemma generateDocumentQR_embedded:
  assumes "JSON_stringify (verificationPayload ts sd md) = Some t" "\<not> 2000 < length t"
    and "toDataURL t = Inr img"
  shows "generateDocumentQR toDataURL now ts uuid store sd md =
           (store, Inr \<lparr>qrImage = img, qrData = t, payload = verificationPayload ts sd md,
                        qr_size = length t, compressed = False\<rparr>)"
  using assms by (simp add: generateDocumentQR_def)

lemma generateDocumentQR_reference:
  assumes "JSON_stringify (verificationPayload ts sd md) = Some t" "2000 < length t"
    and "get sd ''documentHash'' = JStr h"
    and "JSON_stringify (verificationReference uuid h sd md) = Some u"
    and "toDataURL u = Inr img"
  shows "generateDocumentQR toDataURL now ts uuid store sd md =
           (storeVerificationData now store uuid (verificationPayload ts sd md),
            Inr \<lparr>qrImage = img, qrData = u, payload = verificationPayload ts sd md,
                 qr_size = length t, compressed = True\<rparr>)"
  using assms by (simp add: generateDocumentQR_def)

lemma demo_toDataURL_nonempty: "text \<noteq> [] \<Longrightarrow> demo_toDataURL text = Inr ''data:image/png;base64,iVBORw0KGgo=''"
  by (simp add: demo_toDataURL_def)

text \<open>
  C7, as the code has it. Take well-formed objects (no key twice) and a call of
  \<^verbatim>\<open>generateDocumentQR\<close> that returns. The result is the reference variant
  (\<^verbatim>\<open>compressed\<close>, with the \<^verbatim>\<open>verification_url\<close> object as QR data) exactly when
  \<^verbatim>\<open>payloadString.length\<close> exceeds 2000, and the embedded variant, with the payload
  text itself as QR data, otherwise. The length is the number of UTF-16 code units of the
  text; when every character of the text is ASCII it is the number of its bytes.
  \<^verbatim>\<open>parseQRData\<close> on the QR data produced returns a result of type
  \<^verbatim>\<open>url_verification\<close> for the reference variant and \<^verbatim>\<open>embedded_verification\<close>
  for the embedded one.
\<close>

theorem qr_variant_and_decoding:
  assumes "distinct_keys (JObj sd)" and "distinct_keys (JObj md)"
    and "generateDocumentQR toDataURL now ts uuid store sd md = (store', Inr q)"
  shows "\<exists>t. JSON_stringify (verificationPayload ts sd md) = Some t \<and>
             compressed q = (2000 < length t) \<and>
             ((\<forall>c \<in> set t. (of_char c :: nat) < 128) \<longrightarrow> compressed q = (2000 < length (utf8 t))) \<and>
             (compressed q \<longrightarrow>
                (\<exists>h. get sd ''documentHash'' = JStr h \<and>
                      JSON_stringify (verificationReference uuid h sd md) = Some (qrData q))) \<and>
             (\<not> compressed q \<longrightarrow> qrData q = t) \<and>
             (\<exists>r. parseQRData (qrData q) = Inr r \<and>
                  get r ''type'' = JStr (if compressed q then ''url_verification'' else ''embedded_verification''))"
proof -
  from generateDocumentQR_cases[OF assms(3)] obtain t where
    t: "JSON_stringify (verificationPayload ts sd md) = Some t" and
    c: "compressed q = (2000 < length t)" and
    r: "if 2000 < length t
        then \<exists>h. get sd ''documentHash'' = JStr h \<and>
                 JSON_stringify (verificationReference uuid h sd md) = Some (qrData q) \<and>
                 store' = storeVerificationData now store uuid (verificationPayload ts sd md)
        else qrData q = t \<and> store' = store"
    by blast
  show ?thesis
  proof (cases "2000 < length t")
    case True
    with r obtain h where h: "get sd ''documentHash'' = JStr h"
      "JSON_stringify (verificationReference uuid h sd md) = Some (qrData q)" by auto
    from parse_reference[OF assms(2) h(2)] True t c h show ?thesis
      by (auto simp: get_def utf8_length_ascii)
  next
    case False
    with r have "qrData q = t" by simp
    with parse_payload[OF assms(1,2) t] False t c show ?thesis
      by (auto simp: get_def utf8_length_ascii)
  qed
qed

theorem qr_variant_and_decoding_witness:
  "distinct_keys (JObj demo_single) \<and> distinct_keys (JObj demo_metadata) \<and>
   (\<exists>q. generateDocumentQR demo_toDataURL 1000 ''2024-01-03T00:00:00.000Z'' ''v-1'' Map.empty
           demo_single demo_metadata = (Map.empty, Inr q) \<and>
        \<not> compressed q \<and> qr_size q = 591 \<and>
        (\<exists>r. parseQRData (qrData q) = Inr r \<and> get r ''type'' = JStr ''embedded_verification''))"
proof -
  obtain t where t: "JSON_stringify (verificationPayload ''2024-01-03T00:00:00.000Z'' demo_single demo_metadata) = Some t"
    and l: "length t = 591"
    using demo_length_1 by auto
  from l have "t \<noteq> []" by auto
  then have d: "demo_toDataURL t = Inr ''data:image/png;base64,iVBORw0KGgo=''" by (rule demo_toDataURL_nonempty)
  from l have n: "\<not> 2000 < length t" by simp
  have g: "generateDocumentQR demo_toDataURL 1000 ''2024-01-03T00:00:00.000Z'' ''v-1'' Map.empty demo_single demo_metadata
       = (Map.empty, Inr \<lparr>qrImage = ''data:image/png;base64,iVBORw0KGgo='', qrData = t,
                 payload = verificationPayload ''2024-01-03T00:00:00.000Z'' demo_single demo_metadata,
                 qr_size = length t, compressed = False\<rparr>)"
    by (rule generateDocumentQR_embedded[where toDataURL = demo_toDataURL, OF t n d])
  from qr_variant_and_decoding[OF demo_single_keys demo_metadata_keys g] l g show ?thesis
    by (auto simp: demo_single_keys demo_metadata_keys simp del: distinct_keys.simps)
qed

text \<open>
  C7 as stated fails when size is counted in bytes: with a title of 800 accented letters
  the payload text has 1385 code units and 2185 bytes in UTF-8, and the result is the
  embedded variant.
\<close>

theorem long_payload_in_bytes_is_embedded:
  "map_sum id compressed
     (snd (generateDocumentQR demo_toDataURL 1000 ''2024-01-03T00:00:00.000Z'' ''v-1'' Map.empty
             demo_single demo_metadata_accents)) = Inr False \<and>
   map_option (\<lambda>t. 2000 < length (utf8 t))
     (JSON_stringify (verificationPayload ''2024-01-03T00:00:00.000Z'' demo_single demo_metadata_accents))
     = Some True"
proof -
  obtain t where t: "JSON_stringify (verificationPayload ''2024-01-03T00:00:00.000Z'' demo_single demo_metadata_accents) = Some t"
    and l: "length t = 1385" "length (utf8 t) = 2185"
    using demo_length_2 by auto
  from l have "t \<noteq> []" by auto
  then have d: "demo_toDataURL t = Inr ''data:image/png;base64,iVBORw0KGgo=''" by (rule demo_toDataURL_nonempty)
  from l have n: "\<not> 2000 < length t" by simp
  from generateDocumentQR_embedded[where toDataURL = demo_toDataURL, OF t n d, of 1000 "''v-1''" Map.empty] l t
  show ?thesis by simp
qed

text \<open>
  C8. When the result is the reference variant, \<^verbatim>\<open>documentHash\<close> of the artifact is a
  string and the QR data is the text of the \<^verbatim>\<open>verification_url\<close> object. Read back
  by \<^verbatim>\<open>parseQRData\<close>, its \<^verbatim>\<open>quickVerify\<close> holds the first 16 characters of the
  document hash and the signature count: the length of \<^verbatim>\<open>signatures\<close> when that is an
  array, 1 otherwise.
\<close>

theorem reference_fingerprint:
  assumes "distinct_keys (JObj md)"
    and "generateDocumentQR toDataURL now ts uuid store sd md = (store', Inr q)"
    and "compressed q"
  shows "\<exists>h. get sd ''documentHash'' = JStr h \<and>
             JSON_stringify (verificationReference uuid h sd md) = Some (qrData q) \<and>
             parseQRData (qrData q) =
               Inr [(''type'', JStr ''url_verification''),
                    (''verificationId'', JStr uuid),
                    (''url'', JStr (''/api/verification/'' @ uuid)),
                    (''documentId'', norm (get md ''id'')),
                    (''quickVerify'', JObj
                       [(''documentHash'', JStr (take 16 h)),
                        (''signatureCount'',
                           JNum (case get sd ''signatures'' of JArr xs \<Rightarrow> int (length xs) | _ \<Rightarrow> 1))])]"
proof -
  from generateDocumentQR_cases[OF assms(2)] assms(3) obtain h where
    h: "get sd ''documentHash'' = JStr h"
      "JSON_stringify (verificationReference uuid h sd md) = Some (qrData q)" by auto
  from parse_reference[OF assms(1) h(2)] h show ?thesis by simp
qed


theorem reference_fingerprint_witness:
  "distinct_keys (JObj demo_metadata) \<and>
   (\<exists>store' q. generateDocumentQR demo_toDataURL 1000 ''2024-01-03T00:00:00.000Z'' ''v-1'' Map.empty
           demo_aggregate demo_metadata = (store', Inr q) \<and>
        compressed q \<and> qr_size q = 2311 \<and>
        parseQRData (qrData q) =
          Inr [(''type'', JStr ''url_verification''),
               (''verificationId'', JStr ''v-1''),
               (''url'', JStr ''/api/verification/v-1''),
               (''documentId'', JStr ''doc-1''),
               (''quickVerify'', JObj [(''documentHash'', JStr ''9f86d081884c7d65''),
                                      (''signatureCount'', JNum 5)])])"
proof -
  let ?ts = "''2024-01-03T00:00:00.000Z''"
  let ?h = "''9f86d081884c7d659a2feaa0c55ad015a3bf4f1b2b0b822cd15d6c15b0f00a08''"
  obtain t where t: "JSON_stringify (verificationPayload ?ts demo_aggregate demo_metadata) = Some t"
    and l: "length t = 2311"
    using demo_length_3 by auto
  from l have n: "2000 < length t" by simp
  have h: "get demo_aggregate ''documentHash'' = JStr ?h" by (simp add: demo_aggregate_def get_def)
  obtain u where u: "JSON_stringify (verificationReference ''v-1'' ?h demo_aggregate demo_metadata) = Some u"
    by (simp add: verificationReference_def)
  from stringify_first[OF u] have "u \<noteq> []" by auto
  then have d: "demo_toDataURL u = Inr ''data:image/png;base64,iVBORw0KGgo=''" by (rule demo_toDataURL_nonempty)
  have g: "generateDocumentQR demo_toDataURL 1000 ?ts ''v-1'' Map.empty demo_aggregate demo_metadata =
           (storeVerificationData 1000 Map.empty ''v-1'' (verificationPayload ?ts demo_aggregate demo_metadata),
            Inr \<lparr>qrImage = ''data:image/png;base64,iVBORw0KGgo='', qrData = u,
                 payload = verificationPayload ?ts demo_aggregate demo_metadata,
                 qr_size = length t, compressed = True\<rparr>)"
    by (rule generateDocumentQR_reference[where toDataURL = demo_toDataURL, OF t n h u d])
  have s: "get demo_aggregate ''signatures'' = JArr (map demo_aggregate_entry [''dosen'', ''kaprodi'', ''dekan'', ''rektor'', ''admin''])"
    by (simp add: demo_aggregate_def get_def)
  have i: "get demo_metadata ''id'' = JStr ''doc-1''" by (simp add: demo_metadata_def get_def)
  from reference_fingerprint[OF demo_metadata_keys g] h l g show ?thesis
    by (auto simp: demo_metadata_keys s i simp del: distinct_keys.simps)
qed


end
